theory Spec2Isabelle
  imports Complex_Main "HOL-Library.Char_ord" "HOL-Library.List_Lexorder"
    "HOL-Library.Product_Lexorder" "HOL-Library.AList" "HOL-Library.Multiset"
begin

section \<open>Values held in a table\<close>

text \<open>
  A cell of a pandas table. \<open>NA\<close> stands for every missing value (NaN, NaT, an empty
  field of the file). \<open>Text\<close> is a string as read from the file, \<open>Number\<close> a numeric
  value, \<open>Datetime y m d\<close> a timestamp (the time of day plays no part in the program),
  \<open>PeriodM y m\<close> a monthly period. Numbers are exact rationals: the rounding of
  float64 arithmetic is outside this model.
\<close>

datatype cell = NA | Text string | Number rat | Datetime nat nat nat | PeriodM nat nat

text \<open>
  The order used when pandas sorts a column. Columns of the program are homogeneous, so
  only the order inside one constructor matters: strings by their bytes, numbers by
  value, timestamps and periods chronologically. Missing values come last.
\<close>

fun cell_key :: "cell \<Rightarrow> nat \<times> string \<times> rat \<times> nat \<times> nat \<times> nat" where
  "cell_key (Text s) = (0, s, 0, 0, 0, 0)"
| "cell_key (Number q) = (1, [], q, 0, 0, 0)"
| "cell_key (Datetime y m d) = (2, [], 0, y, m, d)"
| "cell_key (PeriodM y m) = (3, [], 0, y, m, 0)"
| "cell_key NA = (4, [], 0, 0, 0, 0)"

instantiation cell :: linorder
begin

definition less_eq_cell :: "cell \<Rightarrow> cell \<Rightarrow> bool" where
  "less_eq_cell a b = (cell_key a \<le> cell_key b)"

definition less_cell :: "cell \<Rightarrow> cell \<Rightarrow> bool" where
  "less_cell a b = (cell_key a < cell_key b)"

instance
proof
  fix a b c :: cell
  show "(a < b) = (a \<le> b \<and> \<not> b \<le> a)"
    unfolding less_eq_cell_def less_cell_def by (rule less_le_not_le)
  show "a \<le> a"
    unfolding less_eq_cell_def by simp
  show "a \<le> b \<Longrightarrow> b \<le> c \<Longrightarrow> a \<le> c"
    unfolding less_eq_cell_def by (rule order_trans)
  show "a \<le> b \<or> b \<le> a"
    unfolding less_eq_cell_def by (rule linear)
  show "a \<le> b \<Longrightarrow> b \<le> a \<Longrightarrow> a = b"
  proof -
    assume "a \<le> b" and "b \<le> a"
    then have "cell_key a = cell_key b"
      unfolding less_eq_cell_def by (rule antisym)
    then show "a = b"
      by (cases a; cases b) simp_all
  qed
qed

end

text \<open>The numeric value a sum reads from a cell; \<open>sum()\<close> skips missing values.\<close>

fun cell_num :: "cell \<Rightarrow> rat" where
  "cell_num (Number q) = q"
| "cell_num _ = 0"

text \<open>Elementwise product of two numeric cells; a missing operand gives a missing result.\<close>

fun cell_mul :: "cell \<Rightarrow> cell \<Rightarrow> cell" where
  "cell_mul (Number a) (Number b) = Number (a * b)"
| "cell_mul _ _ = NA"

section \<open>Tables\<close>

text \<open>
  A DataFrame is the ordered list of its columns, each a name with its Series. In every
  table pandas builds, all columns have the same length (\<open>rectangular\<close>).
\<close>

type_synonym series = "cell list"
type_synonym dataframe = "(string \<times> series) list"

datatype exn = SystemExit string | KeyError string | AttributeError string | NameError string

text \<open>\<open>sys.exit(msg)\<close> with a string, and an uncaught exception, end the process with status 1.\<close>

fun exit_status :: "exn \<Rightarrow> nat" where
  "exit_status _ = 1"

definition ebind :: "exn + 'a \<Rightarrow> ('a \<Rightarrow> exn + 'b) \<Rightarrow> exn + 'b" where
  "ebind m f = (case m of Inl e \<Rightarrow> Inl e | Inr x \<Rightarrow> f x)"

definition columns :: "dataframe \<Rightarrow> string list" where
  "columns df = map fst df"

definition nrows :: "dataframe \<Rightarrow> nat" where
  "nrows df = (case df of [] \<Rightarrow> 0 | (c, s) # _ \<Rightarrow> length s)"

definition rectangular :: "dataframe \<Rightarrow> bool" where
  "rectangular df = list_all (\<lambda>(c, s). length s = nrows df) df"

text \<open>\<open>df.empty\<close>: one of the two axes has length 0.\<close>

definition df_empty :: "dataframe \<Rightarrow> bool" where
  "df_empty df = (df = [] \<or> nrows df = 0)"

text \<open>\<open>df[c]\<close> raises KeyError for an absent column.\<close>

definition getitem :: "dataframe \<Rightarrow> string \<Rightarrow> exn + series" where
  "getitem df c = (case map_of df c of None \<Rightarrow> Inl (KeyError c) | Some s \<Rightarrow> Inr s)"

fun getitems :: "dataframe \<Rightarrow> string list \<Rightarrow> exn + series list" where
  "getitems df [] = Inr []"
| "getitems df (c # cs) =
     ebind (getitem df c) (\<lambda>s. ebind (getitems df cs) (\<lambda>ss. Inr (s # ss)))"

text \<open>\<open>df[c] = s\<close> replaces the column in place, or appends a new last column.\<close>

definition setitem :: "dataframe \<Rightarrow> string \<Rightarrow> series \<Rightarrow> dataframe" where
  "setitem df c s = AList.update c s df"

text \<open>\<open>s.isna().sum()\<close>.\<close>

definition isna_sum :: "series \<Rightarrow> nat" where
  "isna_sum s = length (filter (\<lambda>c. c = NA) s)"

text \<open>
  \<open>df.dropna(subset=cs)\<close>: a row is kept when none of the named columns is missing
  there; every column is cut down to the kept rows.
\<close>

fun notna_all :: "series list \<Rightarrow> nat \<Rightarrow> bool list" where
  "notna_all [] n = replicate n True"
| "notna_all (s # ss) n = map2 (\<lambda>c b. c \<noteq> NA \<and> b) s (notna_all ss n)"

definition select_rows :: "bool list \<Rightarrow> series \<Rightarrow> series" where
  "select_rows keep s = map fst (filter snd (zip s keep))"

definition map_cols :: "(series \<Rightarrow> series) \<Rightarrow> dataframe \<Rightarrow> dataframe" where
  "map_cols f df = map (\<lambda>(c, s). (c, f s)) df"

definition dropna :: "string list \<Rightarrow> dataframe \<Rightarrow> exn + dataframe" where
  "dropna cs df =
     ebind (getitems df cs) (\<lambda>ss. Inr (map_cols (select_rows (notna_all ss (nrows df))) df))"

section \<open>The environment of a run\<close>

text \<open>
  What \<open>pd.read_csv\<close> returns: the file is absent, reading it raises another exception
  (with its text), or a table is read.
\<close>

datatype csv_result = FileNotFoundError | OtherError string | Frame dataframe

text \<open>
  The collaborators the program calls and does not define, as parameters of a run:
  \<^item> \<open>read_csv\<close>: \<open>pd.read_csv\<close> on the file system;
  \<^item> \<open>parse_datetime\<close>, \<open>parse_numeric\<close>: what \<open>pd.to_datetime\<close> and \<open>pd.to_numeric\<close>
    make, in the column at hand, of one value that is present (\<open>None\<close>: unparsable,
    coerced to missing; equal values of a column are coerced alike);
  \<^item> \<open>set_iter\<close>: the order in which this process iterates over a set of strings
    (it depends on the hash seed of the process);
  \<^item> \<open>to_string\<close>: \<open>DataFrame.to_string(index=False, justify="left")\<close>;
  \<^item> \<open>excel_write\<close>: writing the workbook, \<open>Some e\<close> when it raises an exception
    with text \<open>e\<close>.
\<close>

record env =
  read_csv :: "string \<Rightarrow> csv_result"
  parse_datetime :: "cell \<Rightarrow> (nat \<times> nat \<times> nat) option"
  parse_numeric :: "cell \<Rightarrow> rat option"
  set_iter :: "string set \<Rightarrow> string list"
  to_string :: "dataframe \<Rightarrow> string"
  excel_write :: "string \<Rightarrow> (string \<times> dataframe) list \<Rightarrow> string option"

text \<open>
  A line the program prints to the console, and the files written. \<open>render\<close> gives the
  text of a line. The message of \<open>sys.exit\<close> is carried by the exception. What the
  libraries themselves write to the error stream is not modelled.
\<close>

datatype line = Generating | DateWarning nat | NumericWarning nat
  | TableTitle string | TableBody string | ExcelSaved string | Completed

record world =
  console :: "line list"
  files :: "(string \<times> (string \<times> dataframe) list) list"

definition print_line :: "line \<Rightarrow> world \<Rightarrow> world" where
  "print_line l w = w\<lparr>console := console w @ [l]\<rparr>"

definition cross_mark :: string where
  "cross_mark = [CHR 0xE2, CHR 0x9D, CHR 0x8C]"

definition warning_sign :: string where
  "warning_sign = [CHR 0xE2, CHR 0x9A, CHR 0xA0]"

definition check_mark :: string where
  "check_mark = [CHR 0xE2, CHR 0x9C, CHR 0x85]"

definition bar_chart :: string where
  "bar_chart = [CHR 0xF0, CHR 0x9F, CHR 0x93, CHR 0x8A]"

definition direct_hit :: string where
  "direct_hit = [CHR 0xF0, CHR 0x9F, CHR 0x8E, CHR 0xAF]"

definition quote :: string where
  "quote = [CHR 0x27]"

fun str_nat :: "nat \<Rightarrow> string" where
  "str_nat n = (if n < 10 then [char_of (48 + n)]
                else str_nat (n div 10) @ [char_of (48 + n mod 10)])"

declare str_nat.simps [simp del]

fun join :: "string \<Rightarrow> string list \<Rightarrow> string" where
  "join sep [] = []"
| "join sep [x] = x"
| "join sep (x # y # ys) = x @ sep @ join sep (y # ys)"

fun render :: "line \<Rightarrow> string" where
  "render Generating = bar_chart @ '' Generating Sales Report...''"
| "render (DateWarning n) = warning_sign @ '' Warning: '' @ str_nat n
     @ '' rows have invalid or missing dates and were removed.''"
| "render (NumericWarning n) = warning_sign @ '' Warning: '' @ str_nat n
     @ '' rows had invalid/missing Quantity or Unit Price and were removed.''"
| "render (TableTitle title) = [CHR 0x0A] @ ''=== '' @ title @ '' ===''"
| "render (TableBody body) = body"
| "render (ExcelSaved f) = check_mark @ '' Excel report saved as '' @ quote @ f @ quote"
| "render Completed = [CHR 0x0A] @ direct_hit @ '' Sales Report generation completed successfully!''"

definition INPUT_FILE :: string where
  "INPUT_FILE = ''sales_data.csv''"

definition OUTPUT_FILE :: string where
  "OUTPUT_FILE = ''sales_report.xlsx''"

section \<open>read_sales_data\<close>

definition required_columns :: "string set" where
  "required_columns = {''Date'', ''Product'', ''Quantity'', ''Unit Price'', ''Salesperson''}"

text \<open>\<open>pd.to_datetime(s, errors="coerce")\<close> and \<open>pd.to_numeric(s, errors="coerce")\<close>.\<close>

definition to_datetime :: "env \<Rightarrow> series \<Rightarrow> series" where
  "to_datetime E s =
     map (\<lambda>c. if c = NA then NA
              else (case parse_datetime E c of None \<Rightarrow> NA
                    | Some (y, m, d) \<Rightarrow> Datetime y m d)) s"

definition to_numeric :: "env \<Rightarrow> series \<Rightarrow> series" where
  "to_numeric E s =
     map (\<lambda>c. if c = NA then NA
              else (case parse_numeric E c of None \<Rightarrow> NA | Some q \<Rightarrow> Number q)) s"

text \<open>Lines 50 to 55: the dates are coerced, counted and the rows without one dropped.\<close>

definition handle_invalid_dates :: "env \<Rightarrow> dataframe \<Rightarrow> world \<Rightarrow> (exn + dataframe) \<times> world" where
  "handle_invalid_dates E df w =
     (case getitem df ''Date'' of
        Inl e \<Rightarrow> (Inl e, w)
      | Inr ds \<Rightarrow>
          let df1 = setitem df ''Date'' (to_datetime E ds) in
          (case getitem df1 ''Date'' of
             Inl e \<Rightarrow> (Inl e, w)
           | Inr ds1 \<Rightarrow>
               let invalid_dates = isna_sum ds1 in
               if invalid_dates > 0
               then (dropna [''Date''] df1, print_line (DateWarning invalid_dates) w)
               else (Inr df1, w)))"

text \<open>
  Lines 57 to 63: Quantity and Unit Price are coerced; the tally is the number of missing
  Quantity cells plus the number of missing Unit Price cells.
\<close>

definition clean_quantity_price :: "env \<Rightarrow> dataframe \<Rightarrow> world \<Rightarrow> (exn + dataframe) \<times> world" where
  "clean_quantity_price E df w =
     (case getitem df ''Quantity'' of
        Inl e \<Rightarrow> (Inl e, w)
      | Inr qs \<Rightarrow>
          let df1 = setitem df ''Quantity'' (to_numeric E qs) in
          (case getitem df1 ''Unit Price'' of
             Inl e \<Rightarrow> (Inl e, w)
           | Inr ps \<Rightarrow>
               let df2 = setitem df1 ''Unit Price'' (to_numeric E ps) in
               (case ebind (getitem df2 ''Quantity'') (\<lambda>q2.
                       ebind (getitem df2 ''Unit Price'') (\<lambda>p2. Inr (isna_sum q2 + isna_sum p2))) of
                  Inl e \<Rightarrow> (Inl e, w)
                | Inr invalid_price_qty \<Rightarrow>
                    if invalid_price_qty > 0
                    then (dropna [''Quantity'', ''Unit Price''] df2,
                          print_line (NumericWarning invalid_price_qty) w)
                    else (Inr df2, w))))"

text \<open>Line 66: \<open>df["Total Sale"] = df["Quantity"] * df["Unit Price"]\<close>.\<close>

definition total_sale :: "dataframe \<Rightarrow> exn + dataframe" where
  "total_sale df =
     ebind (getitem df ''Quantity'') (\<lambda>qs.
       ebind (getitem df ''Unit Price'') (\<lambda>ps.
         Inr (setitem df ''Total Sale'' (map2 cell_mul qs ps))))"

definition read_sales_data :: "env \<Rightarrow> string \<Rightarrow> world \<Rightarrow> (exn + dataframe) \<times> world" where
  "read_sales_data E file_path w =
     (case read_csv E file_path of
        FileNotFoundError \<Rightarrow>
          (Inl (SystemExit (cross_mark @ '' Error: File '' @ quote @ file_path @ quote
                            @ '' not found.'')), w)
      | OtherError e \<Rightarrow>
          (Inl (SystemExit (cross_mark @ '' Error reading CSV file: '' @ e)), w)
      | Frame df \<Rightarrow>
          if \<not> required_columns \<subseteq> set (columns df)
          then (Inl (SystemExit (cross_mark @ '' Missing required columns in CSV: ''
                  @ join '', '' (set_iter E (required_columns - set (columns df))))), w)
          else (case handle_invalid_dates E df w of
                  (Inl e, w1) \<Rightarrow> (Inl e, w1)
                | (Inr df1, w1) \<Rightarrow>
                    (case clean_quantity_price E df1 w1 of
                       (Inl e, w2) \<Rightarrow> (Inl e, w2)
                     | (Inr df2, w2) \<Rightarrow> (total_sale df2, w2))))"

section \<open>The four summaries\<close>

text \<open>
  \<open>df.groupby(key, as_index=False)[col].sum()\<close>: rows whose key is missing are left out
  (the default \<open>dropna=True\<close>), the groups come in ascending order of their key (the
  default \<open>sort=True\<close>), and the result has the two columns \<open>key\<close> and \<open>col\<close>.
\<close>

definition present_pairs :: "series \<Rightarrow> series \<Rightarrow> (cell \<times> cell) list" where
  "present_pairs ks vs = filter (\<lambda>(k, v). k \<noteq> NA) (zip ks vs)"

definition group_keys :: "(cell \<times> cell) list \<Rightarrow> series" where
  "group_keys kv = sort (remdups (map fst kv))"

definition group_sum :: "(cell \<times> cell) list \<Rightarrow> cell \<Rightarrow> cell" where
  "group_sum kv k = Number (sum_list (map (\<lambda>(k', v). cell_num v) (filter (\<lambda>(k', v). k' = k) kv)))"

definition groupby_sum :: "string \<Rightarrow> string \<Rightarrow> dataframe \<Rightarrow> exn + dataframe" where
  "groupby_sum key col df =
     ebind (getitem df key) (\<lambda>ks.
       ebind (getitem df col) (\<lambda>vs.
         let kv = present_pairs ks vs
         in Inr [(key, group_keys kv), (col, map (group_sum kv) (group_keys kv))]))"

text \<open>
  \<open>df.sort_values(by=key, ascending=asc)\<close>. pandas sorts the positions of the values
  that are present, for a descending sort by reversing before and after an ascending
  sort, and puts the missing ones last. The sort is taken stable, as it is for the
  short columns of a summary.
\<close>

definition argsort :: "bool \<Rightarrow> series \<Rightarrow> nat list" where
  "argsort asc ks =
     (let ps = zip ks [0..<length ks];
          present = filter (\<lambda>(k, i). k \<noteq> NA) ps;
          missing = filter (\<lambda>(k, i). k = NA) ps
      in map snd ((if asc then sort_key fst present
                   else rev (sort_key fst (rev present))) @ missing))"

definition take_rows :: "nat list \<Rightarrow> dataframe \<Rightarrow> dataframe" where
  "take_rows idx df = map_cols (\<lambda>s. map (\<lambda>i. s ! i) idx) df"

definition sort_values :: "string \<Rightarrow> bool \<Rightarrow> dataframe \<Rightarrow> exn + dataframe" where
  "sort_values key asc df =
     ebind (getitem df key) (\<lambda>ks. Inr (take_rows (argsort asc ks) df))"

text \<open>
  Each function returns its summary together with the table \<open>df\<close> as it is after the
  call: the caller's table is the same object.
\<close>

definition generate_product_sales :: "dataframe \<Rightarrow> (exn + dataframe) \<times> dataframe" where
  "generate_product_sales df =
     (ebind (groupby_sum ''Product'' ''Total Sale'' df) (sort_values ''Total Sale'' False), df)"

definition generate_salesperson_sales :: "dataframe \<Rightarrow> (exn + dataframe) \<times> dataframe" where
  "generate_salesperson_sales df =
     (ebind (groupby_sum ''Salesperson'' ''Total Sale'' df) (sort_values ''Total Sale'' False), df)"

text \<open>The \<open>.dt\<close> accessor exists on a column of timestamps only.\<close>

fun datetimelike :: "cell \<Rightarrow> bool" where
  "datetimelike (Datetime y m d) = True"
| "datetimelike NA = True"
| "datetimelike _ = False"

fun to_period_M :: "cell \<Rightarrow> cell" where
  "to_period_M (Datetime y m d) = PeriodM y m"
| "to_period_M _ = NA"

fun year_of :: "cell \<Rightarrow> cell" where
  "year_of (Datetime y m d) = Number (of_nat y)"
| "year_of _ = NA"

definition dt :: "series \<Rightarrow> (cell \<Rightarrow> cell) \<Rightarrow> exn + series" where
  "dt s f = (if list_all datetimelike s then Inr (map f s)
             else Inl (AttributeError ''Can only use .dt accessor with datetimelike values''))"

text \<open>The text of a monthly period: the year on four digits, a dash, the month on two.\<close>

definition zfill :: "nat \<Rightarrow> string \<Rightarrow> string" where
  "zfill n s = replicate (n - length s) CHR ''0'' @ s"

definition period_str :: "nat \<Rightarrow> nat \<Rightarrow> string" where
  "period_str y m = zfill 4 (str_nat y) @ ''-'' @ zfill 2 (str_nat m)"

text \<open>
  \<open>astype(str)\<close> on the column of periods of the monthly summary. The groups have no
  missing key, so the column holds periods only; another cell is left as it is.
\<close>

fun astype_str :: "cell \<Rightarrow> cell" where
  "astype_str (PeriodM y m) = Text (period_str y m)"
| "astype_str c = c"

text \<open>Line 90: the local table \<open>monthly\<close> before its keys are turned into text.\<close>

definition monthly_by_period :: "dataframe \<Rightarrow> exn + dataframe" where
  "monthly_by_period df =
     ebind (groupby_sum ''YearMonth'' ''Total Sale'' df) (sort_values ''YearMonth'' True)"

definition generate_monthly_sales :: "dataframe \<Rightarrow> (exn + dataframe) \<times> dataframe" where
  "generate_monthly_sales df =
     (case ebind (getitem df ''Date'') (\<lambda>ds. dt ds to_period_M) of
        Inl e \<Rightarrow> (Inl e, df)
      | Inr ym \<Rightarrow>
          let df1 = setitem df ''YearMonth'' ym in
          (ebind (monthly_by_period df1) (\<lambda>monthly.
             ebind (getitem monthly ''YearMonth'') (\<lambda>ks.
               Inr (setitem monthly ''YearMonth'' (map astype_str ks)))), df1))"

definition generate_ytd_sales :: "dataframe \<Rightarrow> (exn + dataframe) \<times> dataframe" where
  "generate_ytd_sales df =
     (case ebind (getitem df ''Date'') (\<lambda>ds. dt ds year_of) of
        Inl e \<Rightarrow> (Inl e, df)
      | Inr ys \<Rightarrow>
          let df1 = setitem df ''Year'' ys in
          (ebind (groupby_sum ''Year'' ''Total Sale'' df1) (sort_values ''Year'' True), df1))"

section \<open>Output and the main script\<close>

text \<open>
  The workbook is written in one call. When the writer raises, the model leaves the
  files as they were: what a failed write leaves behind is not modelled.
\<close>

definition save_to_excel ::
  "env \<Rightarrow> dataframe \<Rightarrow> dataframe \<Rightarrow> dataframe \<Rightarrow> dataframe \<Rightarrow> string \<Rightarrow> world
     \<Rightarrow> (exn + unit) \<times> world" where
  "save_to_excel E product_sales salesperson_sales monthly_sales ytd_sales output_file w =
     (let sheets = [(''Product Sales'', product_sales),
                    (''Salesperson Sales'', salesperson_sales),
                    (''Monthly Sales'', monthly_sales),
                    (''YTD Sales'', ytd_sales)]
      in case excel_write E output_file sheets of
           Some e \<Rightarrow> (Inl (SystemExit (cross_mark @ '' Error writing Excel file: '' @ e)), w)
         | None \<Rightarrow>
             (Inr (), print_line (ExcelSaved output_file)
                        (w\<lparr>files := AList.update output_file sheets (files w)\<rparr>)))"

definition print_console_table :: "env \<Rightarrow> string \<Rightarrow> dataframe \<Rightarrow> world \<Rightarrow> world" where
  "print_console_table E title df w =
     print_line (TableBody (to_string E df)) (print_line (TableTitle title) w)"

definition main :: "env \<Rightarrow> world \<Rightarrow> (exn + unit) \<times> world" where
  "main E w =
     (let w0 = print_line Generating w in
      case read_sales_data E INPUT_FILE w0 of
        (Inl e, w1) \<Rightarrow> (Inl e, w1)
      | (Inr sales_df, w1) \<Rightarrow>
          if df_empty sales_df
          then (Inl (SystemExit (cross_mark @ '' No valid data to process.'')), w1)
          else
            (case generate_product_sales sales_df of
               (Inl e, df1) \<Rightarrow> (Inl e, w1)
             | (Inr product_sales, df1) \<Rightarrow>
            (case generate_salesperson_sales df1 of
               (Inl e, df2) \<Rightarrow> (Inl e, w1)
             | (Inr salesperson_sales, df2) \<Rightarrow>
            (case generate_monthly_sales df2 of
               (Inl e, df3) \<Rightarrow> (Inl e, w1)
             | (Inr monthly_sales, df3) \<Rightarrow>
            (case generate_ytd_sales df3 of
               (Inl e, df4) \<Rightarrow> (Inl e, w1)
             | (Inr ytd_sales, df4) \<Rightarrow>
                 let w2 = print_console_table E ''Total Sales per Product'' product_sales w1;
                     w3 = print_console_table E ''Total Sales per Salesperson'' salesperson_sales w2;
                     w4 = print_console_table E ''Monthly Sales Summary'' monthly_sales w3;
                     w5 = print_console_table E ''Year-to-Date Sales'' ytd_sales w4
                 in (case save_to_excel E product_sales salesperson_sales monthly_sales
                            ytd_sales OUTPUT_FILE w5 of
                       (Inl e, w6) \<Rightarrow> (Inl e, w6)
                     | (Inr u, w6) \<Rightarrow> (Inr (), print_line Completed w6)))))))"

text \<open>
  The module run as a script. When line 156 is reached the module has bound the names
  of \<open>module_globals\<close>; a name is looked up there, then among the builtins, and a name
  found in neither raises NameError. Only the value of \<open>__name__\<close> is of interest.
\<close>

datatype pyval = PyStr string | PyObject

definition module_globals :: "(string \<times> pyval) list" where
  "module_globals =
     [(''__name__'', PyStr ''__main__''), (''__doc__'', PyObject), (''__package__'', PyObject),
      (''__loader__'', PyObject), (''__spec__'', PyObject), (''__annotations__'', PyObject),
      (''__builtins__'', PyObject), (''__file__'', PyObject), (''__cached__'', PyObject),
      (''pd'', PyObject), (''Path'', PyObject), (''datetime'', PyObject), (''sys'', PyObject),
      (''INPUT_FILE'', PyStr INPUT_FILE), (''OUTPUT_FILE'', PyStr OUTPUT_FILE),
      (''read_sales_data'', PyObject), (''generate_product_sales'', PyObject),
      (''generate_salesperson_sales'', PyObject), (''generate_monthly_sales'', PyObject),
      (''generate_ytd_sales'', PyObject), (''save_to_excel'', PyObject),
      (''print_console_table'', PyObject), (''main'', PyObject)]"

definition builtin_names :: "string list" where
  "builtin_names =
     [''abs'', ''aiter'', ''all'', ''anext'', ''any'', ''ascii'', ''bin'', ''bool'',
      ''breakpoint'', ''bytearray'', ''bytes'', ''callable'', ''chr'', ''classmethod'',
      ''compile'', ''complex'', ''copyright'', ''credits'', ''delattr'', ''dict'', ''dir'',
      ''divmod'', ''enumerate'', ''eval'', ''exec'', ''exit'', ''filter'', ''float'',
      ''format'', ''frozenset'', ''getattr'', ''globals'', ''hasattr'', ''hash'', ''help'',
      ''hex'', ''id'', ''input'', ''int'', ''isinstance'', ''issubclass'', ''iter'', ''len'',
      ''license'', ''list'', ''locals'', ''map'', ''max'', ''memoryview'', ''min'', ''next'',
      ''object'', ''oct'', ''open'', ''ord'', ''pow'', ''print'', ''property'', ''quit'',
      ''range'', ''repr'', ''reversed'', ''round'', ''set'', ''setattr'', ''slice'',
      ''sorted'', ''staticmethod'', ''str'', ''sum'', ''super'', ''tuple'', ''type'',
      ''vars'', ''zip'', ''__import__'', ''__build_class__'', ''__debug__'',
      ''True'', ''False'', ''None'', ''Ellipsis'', ''NotImplemented'',
      ''BaseException'', ''BaseExceptionGroup'', ''Exception'', ''ExceptionGroup'',
      ''GeneratorExit'', ''KeyboardInterrupt'', ''SystemExit'', ''ArithmeticError'',
      ''AssertionError'', ''AttributeError'', ''BlockingIOError'', ''BrokenPipeError'',
      ''BufferError'', ''BytesWarning'', ''ChildProcessError'', ''ConnectionAbortedError'',
      ''ConnectionError'', ''ConnectionRefusedError'', ''ConnectionResetError'',
      ''DeprecationWarning'', ''EOFError'', ''EncodingWarning'', ''EnvironmentError'',
      ''FileExistsError'', ''FileNotFoundError'', ''FloatingPointError'', ''FutureWarning'',
      ''IOError'', ''ImportError'', ''ImportWarning'', ''IndentationError'', ''IndexError'',
      ''InterruptedError'', ''IsADirectoryError'', ''KeyError'', ''LookupError'',
      ''MemoryError'', ''ModuleNotFoundError'', ''NameError'', ''NotADirectoryError'',
      ''NotImplementedError'', ''OSError'', ''OverflowError'', ''PendingDeprecationWarning'',
      ''PermissionError'', ''ProcessLookupError'', ''RecursionError'', ''ReferenceError'',
      ''ResourceWarning'', ''RuntimeError'', ''RuntimeWarning'', ''StopAsyncIteration'',
      ''StopIteration'', ''SyntaxError'', ''SyntaxWarning'', ''SystemError'', ''TabError'',
      ''TimeoutError'', ''TypeError'', ''UnboundLocalError'', ''UnicodeDecodeError'',
      ''UnicodeEncodeError'', ''UnicodeError'', ''UnicodeTranslateError'', ''UnicodeWarning'',
      ''UserWarning'', ''ValueError'', ''Warning'', ''ZeroDivisionError'']"

definition lookup_name :: "string \<Rightarrow> exn + pyval" where
  "lookup_name x =
     (case map_of module_globals x of
        Some v \<Rightarrow> Inr v
      | None \<Rightarrow> if x \<in> set builtin_names then Inr PyObject else Inl (NameError x))"

text \<open>Lines 156 and 157: \<open>if _name_ == "_main_": main()\<close>.\<close>

definition run_script :: "env \<Rightarrow> world \<Rightarrow> (exn + unit) \<times> world" where
  "run_script E w =
     (case lookup_name ''_name_'' of
        Inl e \<Rightarrow> (Inl e, w)
      | Inr v \<Rightarrow> if v = PyStr ''_main_'' then main E w else (Inr (), w))"

section \<open>Observations and sample inputs\<close>

text \<open>A column of a table that is known to have it, and the sum of the Total Sale column.\<close>

definition column :: "dataframe \<Rightarrow> string \<Rightarrow> series" where
  "column df c = (case map_of df c of Some s \<Rightarrow> s | None \<Rightarrow> [])"

definition total_sum :: "dataframe \<Rightarrow> rat" where
  "total_sum df = sum_list (map cell_num (column df ''Total Sale''))"

text \<open>The sum of Total Sale over the rows whose cell in column \<open>key\<close> satisfies \<open>P\<close>.\<close>

definition total_of_rows :: "(cell \<Rightarrow> bool) \<Rightarrow> string \<Rightarrow> dataframe \<Rightarrow> rat" where
  "total_of_rows P key df =
     sum_list (map (\<lambda>(k, v). cell_num v)
       (filter (\<lambda>(k, v). P k) (zip (column df key) (column df ''Total Sale''))))"

text \<open>A timestamp with a calendar year, month and day.\<close>

fun is_datetime :: "cell \<Rightarrow> bool" where
  "is_datetime (Datetime y m d) = (1 \<le> y \<and> y \<le> 9999 \<and> 1 \<le> m \<and> m \<le> 12 \<and> 1 \<le> d \<and> d \<le> 31)"
| "is_datetime _ = False"

fun is_number :: "cell \<Rightarrow> bool" where
  "is_number (Number q) = True"
| "is_number _ = False"



text \<open>A monthly period of a calendar year.\<close>

fun is_period :: "cell \<Rightarrow> bool" where
  "is_period (PeriodM y m) = (y \<le> 9999 \<and> m \<le> 12)"
| "is_period _ = False"

text \<open>
  A cleaned table: it has the five columns and Total Sale, every row has a timestamp, a
  numeric Quantity and a numeric Unit Price, and Total Sale is their product.
\<close>

definition cleaned_table :: "dataframe \<Rightarrow> bool" where
  "cleaned_table df =
     (rectangular df \<and> required_columns \<subseteq> set (columns df)
      \<and> ''Total Sale'' \<in> set (columns df)
      \<and> list_all is_datetime (column df ''Date'')
      \<and> list_all is_number (column df ''Quantity'')
      \<and> list_all is_number (column df ''Unit Price'')
      \<and> column df ''Total Sale'' = map2 cell_mul (column df ''Quantity'') (column df ''Unit Price''))"

text \<open>
  What one row adds to the two tallies of \<open>read_sales_data\<close>, from its Date, Quantity
  and Unit Price as read from the file, and the warnings printed for two tallies.
\<close>

definition unparsable_date :: "env \<Rightarrow> cell \<Rightarrow> bool" where
  "unparsable_date E c = (c = NA \<or> parse_datetime E c = None)"

definition unparsable_number :: "env \<Rightarrow> cell \<Rightarrow> bool" where
  "unparsable_number E c = (c = NA \<or> parse_numeric E c = None)"

definition date_count :: "env \<Rightarrow> cell \<Rightarrow> nat" where
  "date_count E d = (if unparsable_date E d then 1 else 0)"

definition numeric_count :: "env \<Rightarrow> cell \<times> cell \<times> cell \<Rightarrow> nat" where
  "numeric_count E r =
     (case r of (d, q, p) \<Rightarrow>
        if unparsable_date E d then 0
        else (if unparsable_number E q then 1 else 0) + (if unparsable_number E p then 1 else 0))"

definition warnings :: "nat \<Rightarrow> nat \<Rightarrow> line list" where
  "warnings nd nn =
     (if nd > 0 then [DateWarning nd] else []) @ (if nn > 0 then [NumericWarning nn] else [])"

text \<open>The rows of a raw table, as triples of Date, Quantity and Unit Price.\<close>

definition raw_rows :: "dataframe \<Rightarrow> (cell \<times> cell \<times> cell) list" where
  "raw_rows df = zip (column df ''Date'') (zip (column df ''Quantity'') (column df ''Unit Price''))"

text \<open>The parser of dates yields calendar dates only.\<close>

definition valid_dates :: "env \<Rightarrow> bool" where
  "valid_dates E =
     (\<forall>c y m d. parse_datetime E c = Some (y, m, d) \<longrightarrow> is_datetime (Datetime y m d))"

text \<open>
  An iteration order of sets: each element of a finite set comes exactly once. Python
  fixes no more than this for a set of strings: the order follows the hashes of the
  strings, which are salted anew for each process.
\<close>

definition iterates :: "(string set \<Rightarrow> string list) \<Rightarrow> bool" where
  "iterates it = (\<forall>S. finite S \<longrightarrow> set (it S) = S \<and> distinct (it S))"

fun is_warning :: "line \<Rightarrow> bool" where
  "is_warning (DateWarning n) = True"
| "is_warning (NumericWarning n) = True"
| "is_warning _ = False"

text \<open>
  A sample environment: dates written \<open>YYYY-MM-DD\<close> and unsigned decimal numbers parse,
  nothing else does; sets are iterated in ascending order; the writer succeeds.
\<close>

fun digit :: "char \<Rightarrow> nat option" where
  "digit c = (if CHR ''0'' \<le> c \<and> c \<le> CHR ''9'' then Some (of_char c - 48) else None)"

fun digits_acc :: "nat \<Rightarrow> string \<Rightarrow> nat option" where
  "digits_acc a [] = Some a"
| "digits_acc a (c # cs) = (case digit c of None \<Rightarrow> None | Some d \<Rightarrow> digits_acc (10 * a + d) cs)"

definition parse_nat :: "string \<Rightarrow> nat option" where
  "parse_nat s = (if s = [] then None else digits_acc 0 s)"

fun sample_datetime :: "cell \<Rightarrow> (nat \<times> nat \<times> nat) option" where
  "sample_datetime (Text s) =
     (if length s = 10 \<and> s ! 4 = CHR ''-'' \<and> s ! 7 = CHR ''-''
      then (case (parse_nat (take 4 s), parse_nat (take 2 (drop 5 s)), parse_nat (drop 8 s)) of
              (Some y, Some m, Some d) \<Rightarrow>
                if is_datetime (Datetime y m d) then Some (y, m, d) else None
            | _ \<Rightarrow> None)
      else None)"
| "sample_datetime (Datetime y m d) =
     (if is_datetime (Datetime y m d) then Some (y, m, d) else None)"
| "sample_datetime _ = None"

fun sample_numeric :: "cell \<Rightarrow> rat option" where
  "sample_numeric (Number q) = Some q"
| "sample_numeric (Text s) =
     (let whole = takeWhile (\<lambda>c. c \<noteq> CHR ''.'') s;
          rest = dropWhile (\<lambda>c. c \<noteq> CHR ''.'') s
      in if rest = [] then map_option of_nat (parse_nat whole)
         else (case (parse_nat whole, parse_nat (tl rest)) of
                 (Some i, Some f) \<Rightarrow> Some (of_nat i + of_nat f / 10 ^ length (tl rest))
               | _ \<Rightarrow> None))"
| "sample_numeric _ = None"

definition sample_env :: "(string set \<Rightarrow> string list) \<Rightarrow> csv_result \<Rightarrow> env" where
  "sample_env it r =
     \<lparr>read_csv = (\<lambda>f. if f = INPUT_FILE then r else FileNotFoundError),
      parse_datetime = sample_datetime,
      parse_numeric = sample_numeric,
      set_iter = it,
      to_string = (\<lambda>df. concat (map fst df)),
      excel_write = (\<lambda>f sheets. None)\<rparr>"

definition world0 :: world where
  "world0 = \<lparr>console = [], files = []\<rparr>"

text \<open>The scenario of the specification: two good rows and one with an unparsable date.\<close>

definition scenario :: dataframe where
  "scenario =
     [(''Date'', [Text ''2024-01-05'', Text ''2024-02-01'', Text ''bad-date'']),
      (''Product'', [Text ''Widget'', Text ''Widget'', Text ''Gadget'']),
      (''Quantity'', [Text ''2'', Text ''1'', Text ''5'']),
      (''Unit Price'', [Text ''10.0'', Text ''10.0'', Text ''3.0'']),
      (''Salesperson'', [Text ''Alice'', Text ''Bob'', Text ''Alice''])]"

text \<open>A cleaned table whose second row has no Product.\<close>

definition missing_product :: dataframe where
  "missing_product =
     [(''Date'', [Datetime 2024 1 5, Datetime 2024 2 1]),
      (''Product'', [Text ''Widget'', NA]),
      (''Quantity'', [Number 2, Number 1]),
      (''Unit Price'', [Number 10, Number 10]),
      (''Salesperson'', [Text ''Alice'', Text ''Bob'']),
      (''Total Sale'', [Number 20, Number 10])]"

text \<open>The cleaned table of the scenario: its two good rows.\<close>

definition scenario_cleaned :: dataframe where
  "scenario_cleaned =
     [(''Date'', [Datetime 2024 1 5, Datetime 2024 2 1]),
      (''Product'', [Text ''Widget'', Text ''Widget'']),
      (''Quantity'', [Number 2, Number 1]),
      (''Unit Price'', [Number 10, Number 10]),
      (''Salesperson'', [Text ''Alice'', Text ''Bob'']),
      (''Total Sale'', [Number 20, Number 10])]"

text \<open>
  A file whose second row has neither a parsable date nor a parsable Quantity, and a
  file whose second row has a valid date and neither a parsable Quantity nor a parsable
  Unit Price.
\<close>

definition both_invalid :: dataframe where
  "both_invalid =
     [(''Date'', [Text ''2024-01-05'', Text ''bad-date'']),
      (''Product'', [Text ''Widget'', Text ''Gadget'']),
      (''Quantity'', [Text ''2'', Text ''abc'']),
      (''Unit Price'', [Text ''10.0'', Text ''3.0'']),
      (''Salesperson'', [Text ''Alice'', Text ''Bob''])]"

definition both_numbers_bad :: dataframe where
  "both_numbers_bad =
     [(''Date'', [Text ''2024-01-05'', Text ''2024-01-06'']),
      (''Product'', [Text ''Widget'', Text ''Gadget'']),
      (''Quantity'', [Text ''2'', Text ''abc'']),
      (''Unit Price'', [Text ''10.0'', Text ''xyz'']),
      (''Salesperson'', [Text ''Alice'', Text ''Bob''])]"

text \<open>
  A file without the columns Date and Product, a file without the column Unit Price,
  and a file whose only row has no parsable date.
\<close>

definition missing_two :: dataframe where
  "missing_two =
     [(''Quantity'', [Text ''2'', Text ''1'']),
      (''Unit Price'', [Text ''10.0'', Text ''10.0'']),
      (''Salesperson'', [Text ''Alice'', Text ''Bob''])]"

definition missing_one :: dataframe where
  "missing_one =
     [(''Date'', [Text ''2024-01-05'', Text ''2024-02-01'']),
      (''Product'', [Text ''Widget'', Text ''Widget'']),
      (''Quantity'', [Text ''2'', Text ''1'']),
      (''Salesperson'', [Text ''Alice'', Text ''Bob''])]"

definition no_valid_row :: dataframe where
  "no_valid_row =
     [(''Date'', [Text ''bad-date'']),
      (''Product'', [Text ''Gadget'']),
      (''Quantity'', [Text ''5'']),
      (''Unit Price'', [Text ''3.0'']),
      (''Salesperson'', [Text ''Alice''])]"

section \<open>Lemmas on tables, grouping and sorting\<close>

lemma ebind_Inl [simp]: "ebind (Inl e) f = Inl e"
  by (simp add: ebind_def)

lemma ebind_Inr [simp]: "ebind (Inr x) f = f x"
  by (simp add: ebind_def)

lemma getitem_Some: "map_of df c = Some s \<Longrightarrow> getitem df c = Inr s"
  by (simp add: getitem_def)

lemma column_Some: "map_of df c = Some s \<Longrightarrow> column df c = s"
  by (simp add: column_def)

lemma map_of_setitem: "map_of (setitem df c s) c' = (if c' = c then Some s else map_of df c')"
  by (simp add: setitem_def update_conv')

lemma columns_setitem:
  "columns (setitem df c s) = (if c \<in> set (columns df) then columns df else columns df @ [c])"
  by (simp add: setitem_def columns_def update_keys)

lemma map_of_map_cols: "map_of (map_cols f df) c = map_option f (map_of df c)"
  by (induction df) (auto simp: map_cols_def)

lemma columns_map_cols: "columns (map_cols f df) = columns df"
  by (simp add: map_cols_def columns_def case_prod_unfold comp_def)

lemma in_columns_iff: "c \<in> set (columns df) \<longleftrightarrow> (\<exists>s. map_of df c = Some s)"
  by (metis columns_def domIff dom_map_of_conv_image_fst list.set_map option.exhaust option.simps(3))

lemma sum_groups:
  "sum_list (map (\<lambda>k. cell_num (group_sum kv k)) (group_keys kv))
     = sum_list (map (\<lambda>(k, v). cell_num v) kv)"
proof -
  have fin: "finite (fst ` set kv)" by simp
  have gen: "fst ` set xs \<subseteq> K \<Longrightarrow> finite K \<Longrightarrow>
      (\<Sum>k\<in>K. sum_list (map (\<lambda>(k', v). cell_num v) (filter (\<lambda>(k', v). k' = k) xs)))
        = sum_list (map (\<lambda>(k, v). cell_num v) xs)" for xs :: "(cell \<times> cell) list" and K
  proof (induction xs)
    case Nil
    then show ?case by simp
  next
    case (Cons x xs)
    obtain a b where x: "x = (a, b)" by (cases x)
    have aK: "a \<in> K" using Cons.prems x by auto
    have "(\<Sum>k\<in>K. sum_list (map (\<lambda>(k', v). cell_num v) (filter (\<lambda>(k', v). k' = k) (x # xs))))
        = (\<Sum>k\<in>K. (if a = k then cell_num b else 0)
             + sum_list (map (\<lambda>(k', v). cell_num v) (filter (\<lambda>(k', v). k' = k) xs)))"
      by (rule sum.cong) (auto simp: x)
    also have "\<dots> = (\<Sum>k\<in>K. if a = k then cell_num b else 0)
             + (\<Sum>k\<in>K. sum_list (map (\<lambda>(k', v). cell_num v) (filter (\<lambda>(k', v). k' = k) xs)))"
      by (simp add: sum.distrib)
    also have "(\<Sum>k\<in>K. if a = k then cell_num b else 0) = cell_num b"
      using aK Cons.prems(2) by simp
    finally show ?case using Cons x by simp
  qed
  have "sum_list (map (\<lambda>k. cell_num (group_sum kv k)) (group_keys kv))
      = (\<Sum>k\<in>set (group_keys kv). cell_num (group_sum kv k))"
    by (rule sum_list_distinct_conv_sum_set) (simp add: group_keys_def)
  also have "set (group_keys kv) = fst ` set kv"
    by (simp add: group_keys_def)
  finally show ?thesis
    using gen[of kv "fst ` set kv"] by (simp add: group_sum_def)
qed

lemma mset_argsort: "mset (argsort asc ks) = mset [0..<length ks]"
proof -
  let ?ps = "zip ks [0..<length ks]"
  have part: "mset (filter P xs) + mset (filter (\<lambda>x. \<not> P x) xs) = mset xs"
    for P :: "cell \<times> nat \<Rightarrow> bool" and xs
    by (induction xs) auto
  have "mset (argsort asc ks)
      = mset (map snd (filter (\<lambda>p. fst p \<noteq> NA) ?ps)) + mset (map snd (filter (\<lambda>p. \<not> fst p \<noteq> NA) ?ps))"
    by (simp add: argsort_def Let_def case_prod_unfold)
  also have "\<dots> = image_mset snd (mset (filter (\<lambda>p. fst p \<noteq> NA) ?ps) + mset (filter (\<lambda>p. \<not> fst p \<noteq> NA) ?ps))"
    by (simp only: mset_map image_mset_union)
  also have "\<dots> = image_mset snd (mset ?ps)"
    by (simp only: part)
  also have "\<dots> = mset (map snd ?ps)" by (simp only: mset_map)
  also have "map snd ?ps = [0..<length ks]" by simp
  finally show ?thesis .
qed

lemma sum_list_argsort:
  fixes f :: "nat \<Rightarrow> rat"
  shows "sum_list (map f (argsort asc ks)) = sum_list (map f [0..<length ks])"
proof -
  have "mset (map f (argsort asc ks)) = mset (map f [0..<length ks])"
    by (metis mset_argsort mset_map)
  then show ?thesis by (metis sum_mset_sum_list)
qed

lemma nth_argsort_pairs:
  assumes "set qs \<subseteq> set (zip ks [0..<length ks])"
  shows "map (\<lambda>i. ks ! i) (map snd qs) = map fst qs"
proof -
  have "\<And>q. q \<in> set qs \<Longrightarrow> ks ! snd q = fst q"
  proof -
    fix q assume "q \<in> set qs"
    then have "q \<in> set (zip ks [0..<length ks])" using assms by auto
    then obtain n where "n < length ks" "q = (ks ! n, n)"
      by (auto simp: set_zip)
    then show "ks ! snd q = fst q" by simp
  qed
  then show ?thesis by (simp add: comp_def)
qed

lemma sorted_argsort_asc:
  assumes "NA \<notin> set ks"
  shows "sorted (map (\<lambda>i. ks ! i) (argsort True ks))"
proof -
  let ?ps = "zip ks [0..<length ks]"
  have none: "filter (\<lambda>(k, i). k = NA) ?ps = []"
    using assms by (auto simp: filter_empty_conv dest: set_zip_leftD)
  have "map (\<lambda>i. ks ! i) (argsort True ks)
      = map (\<lambda>i. ks ! i) (map snd (sort_key fst (filter (\<lambda>(k, i). k \<noteq> NA) ?ps)))"
    by (simp add: argsort_def Let_def none)
  also have "\<dots> = map fst (sort_key fst (filter (\<lambda>(k, i). k \<noteq> NA) ?ps))"
    by (rule nth_argsort_pairs) auto
  finally show ?thesis by simp
qed



lemma groupby_sum_eq:
  assumes "map_of df key = Some ks" and "map_of df col = Some vs"
  shows "groupby_sum key col df
           = Inr [(key, group_keys (present_pairs ks vs)),
                  (col, map (group_sum (present_pairs ks vs)) (group_keys (present_pairs ks vs)))]"
  using assms by (simp add: groupby_sum_def getitem_Some Let_def)

lemma NA_notin_group_keys: "NA \<notin> set (group_keys (present_pairs ks vs))"
  by (auto simp: group_keys_def present_pairs_def)

lemma set_group_keys:
  assumes "length ks = length vs"
  shows "set (group_keys (present_pairs ks vs)) = set ks - {NA}"
proof -
  have "fst ` set (filter (\<lambda>(k, v). k \<noteq> NA) (zip ks vs)) = set ks - {NA}"
    using assms by (induction ks vs rule: list_induct2) auto
  then show ?thesis by (simp add: group_keys_def present_pairs_def)
qed



lemma sort_values_keys:
  "sort_values key asc [(key, K), (''Total Sale'', T)]
           = Inr [(key, map (\<lambda>i. K ! i) (argsort asc K)),
                  (''Total Sale'', map (\<lambda>i. T ! i) (argsort asc K))]"
  by (simp add: sort_values_def getitem_def take_rows_def map_cols_def)

lemma sum_permuted:
  assumes "length xs = length T"
  shows "sum_list (map cell_num (map (\<lambda>i. T ! i) (argsort asc xs))) = sum_list (map cell_num T)"
proof -
  have "sum_list (map cell_num (map (\<lambda>i. T ! i) (argsort asc xs)))
      = sum_list (map (\<lambda>i. cell_num (T ! i)) (argsort asc xs))"
    by (simp add: comp_def)
  also have "\<dots> = sum_list (map (\<lambda>i. cell_num (T ! i)) [0..<length xs])"
    by (rule sum_list_argsort)
  also have "\<dots> = sum_list (map cell_num (map (\<lambda>i. T ! i) [0..<length T]))"
    using assms by (simp add: comp_def)
  also have "map (\<lambda>i. T ! i) [0..<length T] = T"
    by (rule map_nth)
  finally show ?thesis .
qed

lemma set_permuted:
  assumes "length xs = length K"
  shows "set (map (\<lambda>i. K ! i) (argsort asc xs)) = set K"
proof -
  have "mset (map (\<lambda>i. K ! i) (argsort asc xs)) = mset (map (\<lambda>i. K ! i) [0..<length K])"
    using assms by (metis mset_argsort mset_map)
  then have "mset (map (\<lambda>i. K ! i) (argsort asc xs)) = mset K"
    by (simp only: map_nth)
  then show ?thesis by (metis set_mset_mset)
qed

lemma sum_split_NA:
  "sum_list (map (\<lambda>(k, v). cell_num v) (filter (\<lambda>(k, v). k \<noteq> NA) kv))
     = sum_list (map (\<lambda>(k, v). cell_num v) kv)
       - sum_list (map (\<lambda>(k, v). cell_num v) (filter (\<lambda>(k, v). k = NA) kv))"
  by (induction kv) auto

lemma sum_zip_snd:
  assumes "length ks = length vs"
  shows "sum_list (map (\<lambda>(k, v). cell_num v) (zip ks vs)) = sum_list (map cell_num vs)"
  using assms by (induction ks vs rule: list_induct2) auto


lemma rectangular_length:
  assumes "rectangular df" and "map_of df c = Some s"
  shows "length s = nrows df"
proof -
  have "(c, s) \<in> set df" using assms(2) by (rule map_of_SomeD)
  then show ?thesis using assms(1) by (auto simp: rectangular_def list_all_iff)
qed

lemma cleaned_column:
  assumes "cleaned_table df" and "c \<in> required_columns \<or> c = ''Total Sale''"
  shows "map_of df c = Some (column df c) \<and> length (column df c) = nrows df"
proof -
  have "c \<in> set (columns df)" using assms by (auto simp: cleaned_table_def)
  then obtain s where s: "map_of df c = Some s" by (auto simp: in_columns_iff)
  moreover have "rectangular df" using assms(1) by (simp add: cleaned_table_def)
  ultimately show ?thesis by (simp add: column_Some rectangular_length)
qed






text \<open>A summary sorted by key, ascending.\<close>

lemma summary_by_key:
  assumes "key \<noteq> ''Total Sale''" and "map_of df key = Some ks"
    and "map_of df ''Total Sale'' = Some vs" and "length ks = length vs"
  shows "\<exists>p. ebind (groupby_sum key ''Total Sale'' df) (sort_values key True) = Inr p
           \<and> columns p = [key, ''Total Sale'']
           \<and> map_of p key = Some (column p key)
           \<and> total_sum p = total_sum df - total_of_rows (\<lambda>k. k = NA) key df
           \<and> set (column p key) = set ks - {NA}
           \<and> sorted (column p key)"
proof -
  let ?kv = "present_pairs ks vs"
  let ?K = "group_keys ?kv"
  let ?T = "map (group_sum ?kv) ?K"
  let ?idx = "argsort True ?K"
  let ?p = "[(key, map (\<lambda>i. ?K ! i) ?idx), (''Total Sale'', map (\<lambda>i. ?T ! i) ?idx)]"
  have eq: "ebind (groupby_sum key ''Total Sale'' df) (sort_values key True) = Inr ?p"
    using assms by (simp add: groupby_sum_eq sort_values_keys)
  have colT: "column ?p ''Total Sale'' = map (\<lambda>i. ?T ! i) ?idx"
    using assms(1) by (simp add: column_def)
  have colK: "column ?p key = map (\<lambda>i. ?K ! i) ?idx"
    by (simp add: column_def)
  have "total_sum ?p = sum_list (map cell_num ?T)"
    unfolding total_sum_def colT by (rule sum_permuted) simp
  also have "\<dots> = sum_list (map (\<lambda>k. cell_num (group_sum ?kv k)) ?K)"
    by (simp add: comp_def)
  also have "\<dots> = sum_list (map (\<lambda>(k, v). cell_num v) ?kv)"
    by (rule sum_groups)
  also have "\<dots> = sum_list (map (\<lambda>(k, v). cell_num v) (zip ks vs))
       - sum_list (map (\<lambda>(k, v). cell_num v) (filter (\<lambda>(k, v). k = NA) (zip ks vs)))"
    by (simp add: present_pairs_def sum_split_NA)
  also have "\<dots> = total_sum df - total_of_rows (\<lambda>k. k = NA) key df"
    using assms by (simp add: total_sum_def total_of_rows_def column_Some sum_zip_snd)
  finally have tot: "total_sum ?p = total_sum df - total_of_rows (\<lambda>k. k = NA) key df" .
  have "set (map (\<lambda>i. ?K ! i) ?idx) = set ?K"
    by (rule set_permuted) simp
  then have keys: "set (column ?p key) = set ks - {NA}"
    unfolding colK using assms(4) by (simp only: set_group_keys)
  have srt: "sorted (column ?p key)"
    unfolding colK by (rule sorted_argsort_asc) (rule NA_notin_group_keys)
  have "columns ?p = [key, ''Total Sale'']" by (simp add: columns_def)
  moreover have "map_of ?p key = Some (column ?p key)" by (simp add: column_def)
  ultimately show ?thesis using eq tot keys srt by blast
qed

subsection \<open>The text of a period keeps the order of periods\<close>

lemma less_append_eq_length:
  fixes xs ys :: string
  assumes "xs < ys" and "length xs = length ys"
  shows "xs @ u < ys @ v"
  using assms(2,1) by (induction xs ys rule: list_induct2) auto

lemma less_append_same:
  fixes xs :: string
  shows "xs @ u < xs @ v \<longleftrightarrow> u < v"
  by (induction xs) auto

lemma le_append_same:
  fixes xs :: string
  shows "xs @ u \<le> xs @ v \<longleftrightarrow> u \<le> v"
  by (induction xs) auto

lemma length_str_nat: "0 < k \<Longrightarrow> n < 10 ^ k \<Longrightarrow> length (str_nat n) \<le> k"
proof (induction k arbitrary: n)
  case 0
  then show ?case by simp
next
  case (Suc k)
  show ?case
  proof (cases "n < 10")
    case True
    then show ?thesis by (subst str_nat.simps) simp
  next
    case False
    then have k: "0 < k" using Suc.prems by (cases k) auto
    have "n div 10 < 10 ^ k" using Suc.prems by (simp add: less_mult_imp_div_less mult.commute)
    then have "length (str_nat (n div 10)) \<le> k" using Suc.IH k by simp
    then show ?thesis using False by (subst str_nat.simps) simp
  qed
qed

lemma length_zfill: "length s \<le> k \<Longrightarrow> length (zfill k s) = k"
  by (simp add: zfill_def)

lemma zfill_step:
  assumes "0 < k" and "n < 10 ^ Suc k"
  shows "zfill (Suc k) (str_nat n) = zfill k (str_nat (n div 10)) @ [char_of (48 + n mod 10)]"
proof (cases "n < 10")
  case True
  have "char_of (48::nat) = CHR ''0''" by code_simp
  then have "str_nat 0 = ''0''" by (subst str_nat.simps) simp
  moreover have "replicate k CHR ''0'' = replicate (k - 1) CHR ''0'' @ ''0''"
    using assms(1) by (cases k) (simp_all add: replicate_append_same)
  ultimately show ?thesis using True
    by (subst str_nat.simps) (simp add: zfill_def)
next
  case False
  have "n div 10 < 10 ^ k" using assms by (simp add: less_mult_imp_div_less mult.commute)
  then have "length (str_nat (n div 10)) \<le> k" using assms(1) by (rule length_str_nat[rotated])
  then show ?thesis using False
    by (subst str_nat.simps) (simp add: zfill_def Suc_diff_le)
qed

lemma digit_char_less: "a < 10 \<Longrightarrow> b < 10 \<Longrightarrow> (char_of (48 + a) < char_of (48 + b :: nat)) \<longleftrightarrow> a < b"
  by (simp add: less_char_def)

lemma zfill_mono:
  assumes "0 < k" and "a < b" and "b < 10 ^ k"
  shows "zfill k (str_nat a) < zfill k (str_nat b)"
  using assms
proof (induction k arbitrary: a b)
  case 0
  then show ?case by simp
next
  case (Suc k)
  show ?case
  proof (cases "k = 0")
    case True
    then have "a < 10" "b < 10" using Suc.prems by auto
    then show ?thesis using True Suc.prems(2)
      by (subst (1 2) str_nat.simps) (simp add: zfill_def digit_char_less)
  next
    case False
    then have k: "0 < k" by simp
    have a: "a < 10 ^ Suc k" using Suc.prems by simp
    have da: "a div 10 < 10 ^ k" using a by (simp add: less_mult_imp_div_less mult.commute)
    have db: "b div 10 < 10 ^ k" using Suc.prems by (simp add: less_mult_imp_div_less mult.commute)
    have la: "length (zfill k (str_nat (a div 10))) = k"
      by (intro length_zfill length_str_nat k da)
    have lb: "length (zfill k (str_nat (b div 10))) = k"
      by (intro length_zfill length_str_nat k db)
    have za: "zfill (Suc k) (str_nat a) = zfill k (str_nat (a div 10)) @ [char_of (48 + a mod 10)]"
      by (rule zfill_step[OF k a])
    have zb: "zfill (Suc k) (str_nat b) = zfill k (str_nat (b div 10)) @ [char_of (48 + b mod 10)]"
      by (rule zfill_step[OF k Suc.prems(3)])
    show ?thesis
    proof (cases "a div 10 < b div 10")
      case True
      then have "zfill k (str_nat (a div 10)) < zfill k (str_nat (b div 10))"
        using Suc.IH k db by simp
      then show ?thesis unfolding za zb
        by (rule less_append_eq_length) (simp add: la lb)
    next
      case False
      moreover have "a div 10 \<le> b div 10"
        using Suc.prems(2) by (simp add: div_le_mono)
      ultimately have eq: "a div 10 = b div 10" by simp
      have "a = 10 * (a div 10) + a mod 10" "b = 10 * (b div 10) + b mod 10" by simp_all
      then have "a mod 10 < b mod 10" using Suc.prems(2) eq by linarith
      then show ?thesis unfolding za zb eq
        by (simp add: less_append_same digit_char_less)
    qed
  qed
qed

lemma period_str_mono:
  assumes "y < y' \<or> y = y' \<and> m \<le> m'" and "y' < 10 ^ 4" and "m' < 10 ^ 2"
  shows "period_str y m \<le> period_str y' m'"
proof (cases "y < y'")
  case True
  then have "zfill 4 (str_nat y) < zfill 4 (str_nat y')"
    using assms(2) by (intro zfill_mono) simp_all
  moreover have "length (zfill 4 (str_nat y)) = length (zfill 4 (str_nat y'))"
    using True assms(2) by (simp add: length_zfill length_str_nat)
  ultimately have "period_str y m < period_str y' m'"
    unfolding period_str_def by (rule less_append_eq_length)
  then show ?thesis by simp
next
  case False
  then have eq: "y = y'" and mm: "m \<le> m'" using assms(1) by auto
  have "zfill 2 (str_nat m) \<le> zfill 2 (str_nat m')"
  proof (cases "m = m'")
    case True
    then show ?thesis by simp
  next
    case False
    then have "m < m'" using mm by simp
    then have "zfill 2 (str_nat m) < zfill 2 (str_nat m')"
      using assms(3) by (intro zfill_mono) simp_all
    then show ?thesis by simp
  qed
  then show ?thesis unfolding period_str_def eq
    by (simp add: le_append_same)
qed

lemma astype_str_mono:
  assumes "is_period a" and "is_period b" and "a \<le> b"
  shows "astype_str a \<le> astype_str b"
proof -
  obtain y m where a: "a = PeriodM y m" using assms(1) by (cases a) auto
  obtain y' m' where b: "b = PeriodM y' m'" using assms(2) by (cases b) auto
  have "y < y' \<or> y = y' \<and> m \<le> m'"
    using assms(3) by (auto simp: a b less_eq_cell_def)
  moreover have "y' < 10 ^ 4" "m' < 10 ^ 2" using assms(2) by (simp_all add: b)
  ultimately have "period_str y m \<le> period_str y' m'" by (rule period_str_mono)
  then show ?thesis by (simp add: a b less_eq_cell_def)
qed

lemma sorted_astype_str:
  assumes "list_all is_period ks" and "sorted ks"
  shows "sorted (map astype_str ks)"
proof -
  have "sorted_wrt (\<lambda>a b. astype_str a \<le> astype_str b) ks"
    using assms(2)
    by (rule sorted_wrt_mono_rel[rotated]) (use assms(1) in \<open>auto simp: list_all_iff astype_str_mono\<close>)
  then show ?thesis by (simp add: sorted_wrt_map)
qed

subsection \<open>The summaries of a cleaned table\<close>

lemma total_of_rows_none:
  assumes "NA \<notin> set (column df key)"
  shows "total_of_rows (\<lambda>k. k = NA) key df = 0"
proof -
  have "filter (\<lambda>(k, v). k = NA) (zip (column df key) (column df ''Total Sale'')) = []"
    using assms by (auto simp: filter_empty_conv dest: set_zip_leftD)
  then show ?thesis by (simp add: total_of_rows_def)
qed

lemma cleaned_dates:
  assumes "cleaned_table df"
  shows "list_all datetimelike (column df ''Date'')"
    and "NA \<notin> set (map to_period_M (column df ''Date''))"
    and "NA \<notin> set (map year_of (column df ''Date''))"
    and "list_all is_period (map to_period_M (column df ''Date''))"
    and "list_all is_number (map year_of (column df ''Date''))"
proof -
  have d: "list_all is_datetime (column df ''Date'')"
    using assms by (simp add: cleaned_table_def)
  have a: "datetimelike c \<and> to_period_M c \<noteq> NA \<and> year_of c \<noteq> NA
      \<and> is_period (to_period_M c) \<and> is_number (year_of c)" if "is_datetime c" for c
    using that by (cases c) auto
  have all: "\<And>c. c \<in> set (column df ''Date'') \<Longrightarrow> is_datetime c"
    using d by (simp add: list_all_iff)
  show "list_all datetimelike (column df ''Date'')"
    unfolding list_all_iff using all a by blast
  show "NA \<notin> set (map to_period_M (column df ''Date''))"
  proof
    assume "NA \<in> set (map to_period_M (column df ''Date''))"
    then obtain c where "c \<in> set (column df ''Date'')" "to_period_M c = NA" by auto
    then show False using all a by blast
  qed
  show "NA \<notin> set (map year_of (column df ''Date''))"
  proof
    assume "NA \<in> set (map year_of (column df ''Date''))"
    then obtain c where "c \<in> set (column df ''Date'')" "year_of c = NA" by auto
    then show False using all a by blast
  qed
  show "list_all is_period (map to_period_M (column df ''Date''))"
    unfolding list_all_iff using all a by auto
  show "list_all is_number (map year_of (column df ''Date''))"
    unfolding list_all_iff using all a by auto
qed



lemma derived_key_summary:
  assumes "cleaned_table df" and "key \<noteq> ''Total Sale''"
    and "length ks = length (column df ''Date'')" and "NA \<notin> set ks"
  shows "\<exists>p. ebind (groupby_sum key ''Total Sale'' (setitem df key ks)) (sort_values key True) = Inr p
           \<and> columns p = [key, ''Total Sale'']
           \<and> map_of p key = Some (column p key)
           \<and> total_sum p = total_sum df
           \<and> set (column p key) = set ks
           \<and> sorted (column p key)"
proof -
  let ?df1 = "setitem df key ks"
  have v0: "map_of df ''Total Sale'' = Some (column df ''Total Sale'')"
    and l0: "length (column df ''Date'') = length (column df ''Total Sale'')"
    using cleaned_column[OF assms(1), of "''Date''"] cleaned_column[OF assms(1), of "''Total Sale''"]
    by (simp_all add: required_columns_def)
  have k: "map_of ?df1 key = Some ks" by (simp add: map_of_setitem)
  have v: "map_of ?df1 ''Total Sale'' = Some (column df ''Total Sale'')"
    using assms(2) v0 by (simp add: map_of_setitem)
  have l: "length ks = length (column df ''Total Sale'')" using assms(3) l0 by simp
  have ck: "column ?df1 key = ks" using k by (rule column_Some)
  have t1: "total_sum ?df1 = total_sum df"
    using v by (simp add: total_sum_def column_Some)
  have t2: "total_of_rows (\<lambda>k. k = NA) key ?df1 = 0"
    by (rule total_of_rows_none) (simp add: ck assms(4))
  have t3: "set ks - {NA} = set ks" using assms(4) by auto
  show ?thesis
    using summary_by_key[OF assms(2) k v l] unfolding t1 t2 t3 by simp
qed

lemma monthly_summary:
  assumes "cleaned_table df"
  shows "\<exists>mp m. generate_monthly_sales df
               = (Inr m, setitem df ''YearMonth'' (map to_period_M (column df ''Date'')))
           \<and> monthly_by_period (setitem df ''YearMonth'' (map to_period_M (column df ''Date''))) = Inr mp
           \<and> columns m = [''YearMonth'', ''Total Sale'']
           \<and> total_sum m = total_sum df
           \<and> column m ''YearMonth'' = map astype_str (column mp ''YearMonth'')
           \<and> set (column mp ''YearMonth'') = set (map to_period_M (column df ''Date''))
           \<and> sorted (column mp ''YearMonth'')
           \<and> sorted (column m ''YearMonth'')"
proof -
  let ?ym = "map to_period_M (column df ''Date'')"
  let ?df1 = "setitem df ''YearMonth'' ?ym"
  have d: "map_of df ''Date'' = Some (column df ''Date'')"
    using cleaned_column[OF assms, of "''Date''"] by (simp add: required_columns_def)
  have ne: "''YearMonth'' \<noteq> ''Total Sale''" by simp
  have len: "length ?ym = length (column df ''Date'')" by simp
  from derived_key_summary[OF assms ne len cleaned_dates(2)[OF assms]]
  obtain mp where H: "ebind (groupby_sum ''YearMonth'' ''Total Sale'' ?df1) (sort_values ''YearMonth'' True) = Inr mp
      \<and> columns mp = [''YearMonth'', ''Total Sale'']
      \<and> map_of mp ''YearMonth'' = Some (column mp ''YearMonth'')
      \<and> total_sum mp = total_sum df
      \<and> set (column mp ''YearMonth'') = set ?ym
      \<and> sorted (column mp ''YearMonth'')" ..
  have mp: "monthly_by_period ?df1 = Inr mp" using H by (simp add: monthly_by_period_def)
  have cols: "columns mp = [''YearMonth'', ''Total Sale'']" using H by simp
  have mk: "map_of mp ''YearMonth'' = Some (column mp ''YearMonth'')" using H by simp
  have tot: "total_sum mp = total_sum df" using H by simp
  have keys: "set (column mp ''YearMonth'') = set ?ym" using H by simp
  have srt: "sorted (column mp ''YearMonth'')" using H by simp
  let ?m = "setitem mp ''YearMonth'' (map astype_str (column mp ''YearMonth''))"
  have dts: "dt (column df ''Date'') to_period_M = Inr ?ym"
    using cleaned_dates(1)[OF assms] by (simp add: dt_def)
  have gen: "generate_monthly_sales df = (Inr ?m, ?df1)"
    unfolding generate_monthly_sales_def
    by (simp add: getitem_Some[OF d] dts mp getitem_Some[OF mk] Let_def)
  have c1: "columns ?m = [''YearMonth'', ''Total Sale'']"
    using cols by (simp add: columns_setitem)
  have c2: "total_sum ?m = total_sum df"
    using tot by (simp add: total_sum_def column_def map_of_setitem)
  have c3: "column ?m ''YearMonth'' = map astype_str (column mp ''YearMonth'')"
    by (simp add: column_def map_of_setitem)
  have "list_all is_period (column mp ''YearMonth'')"
    using cleaned_dates(4)[OF assms] keys by (simp add: list_all_iff)
  then have c4: "sorted (column ?m ''YearMonth'')"
    unfolding c3 using srt by (rule sorted_astype_str)
  show ?thesis
    apply (rule exI[of _ mp])
    apply (rule exI[of _ ?m])
    using gen mp c1 c2 c3 keys srt c4 apply (intro conjI)
           apply assumption+
    done
qed

lemma ytd_summary:
  assumes "cleaned_table df"
  shows "\<exists>y. generate_ytd_sales df = (Inr y, setitem df ''Year'' (map year_of (column df ''Date'')))
           \<and> columns y = [''Year'', ''Total Sale'']
           \<and> total_sum y = total_sum df
           \<and> set (column y ''Year'') = set (map year_of (column df ''Date''))
           \<and> sorted (column y ''Year'')"
proof -
  let ?ys = "map year_of (column df ''Date'')"
  let ?df1 = "setitem df ''Year'' ?ys"
  have d: "map_of df ''Date'' = Some (column df ''Date'')"
    using cleaned_column[OF assms, of "''Date''"] by (simp add: required_columns_def)
  have ne: "''Year'' \<noteq> ''Total Sale''" by simp
  have len: "length ?ys = length (column df ''Date'')" by simp
  from derived_key_summary[OF assms ne len cleaned_dates(3)[OF assms]]
  obtain y where H: "ebind (groupby_sum ''Year'' ''Total Sale'' ?df1) (sort_values ''Year'' True) = Inr y
      \<and> columns y = [''Year'', ''Total Sale'']
      \<and> map_of y ''Year'' = Some (column y ''Year'')
      \<and> total_sum y = total_sum df
      \<and> set (column y ''Year'') = set ?ys
      \<and> sorted (column y ''Year'')" ..
  have dts: "dt (column df ''Date'') year_of = Inr ?ys"
    using cleaned_dates(1)[OF assms] by (simp add: dt_def)
  have gen: "generate_ytd_sales df = (Inr y, ?df1)"
    unfolding generate_ytd_sales_def using H
    by (simp add: getitem_Some[OF d] dts Let_def)
  show ?thesis
    apply (rule exI[of _ y])
    using gen H apply simp
    done
qed

lemma nrows_setitem:
  assumes "df \<noteq> []" and "length s = nrows df"
  shows "nrows (setitem df c s) = nrows df"
  using assms by (cases df) (auto simp: setitem_def nrows_def)

lemma set_setitem: "set (setitem df c s) \<subseteq> insert (c, s) (set df)"
  unfolding setitem_def by (induction df) auto

lemma rectangular_setitem:
  assumes "rectangular df" and "df \<noteq> []" and "length s = nrows df"
  shows "rectangular (setitem df c s) \<and> nrows (setitem df c s) = nrows df"
proof -
  have n: "nrows (setitem df c s) = nrows df" using assms(2,3) by (rule nrows_setitem)
  have "\<And>x. x \<in> set (setitem df c s) \<Longrightarrow> length (snd x) = nrows df"
  proof -
    fix x assume "x \<in> set (setitem df c s)"
    then have "x = (c, s) \<or> x \<in> set df" using set_setitem by blast
    then show "length (snd x) = nrows df"
      using assms(1,3) by (auto simp: rectangular_def list_all_iff)
  qed
  then show ?thesis by (auto simp: rectangular_def list_all_iff n)
qed

lemma monthly_frame:
  assumes "cleaned_table df"
  shows "snd (generate_monthly_sales df)
           = setitem df ''YearMonth'' (map to_period_M (column df ''Date''))"
proof -
  from monthly_summary[OF assms] obtain mp m where
    "generate_monthly_sales df
       = (Inr m, setitem df ''YearMonth'' (map to_period_M (column df ''Date'')))" by blast
  then show ?thesis by simp
qed

lemma ytd_frame:
  assumes "cleaned_table df"
  shows "snd (generate_ytd_sales df) = setitem df ''Year'' (map year_of (column df ''Date''))"
proof -
  from ytd_summary[OF assms] obtain y where
    "generate_ytd_sales df = (Inr y, setitem df ''Year'' (map year_of (column df ''Date'')))"
    by blast
  then show ?thesis by simp
qed

subsection \<open>The phases of read_sales_data\<close>

lemma select_rows_all:
  assumes "length keep = length s" and "\<forall>b\<in>set keep. b"
  shows "select_rows keep s = s"
proof -
  have "filter snd (zip s keep) = zip s keep"
    using assms(2) by (auto simp: filter_id_conv dest: set_zip_rightD)
  then show ?thesis using assms(1) by (simp add: select_rows_def)
qed

lemma to_datetime_isna: "map (\<lambda>c. c = NA) (to_datetime E s) = map (unparsable_date E) s"
  by (auto simp: to_datetime_def unparsable_date_def split: option.splits)

lemma isna_sum_conv: "isna_sum s = length (filter id (map (\<lambda>c. c = NA) s))"
  by (simp add: isna_sum_def filter_map comp_def)

lemma isna_sum_datetime: "isna_sum (to_datetime E s) = sum_list (map (date_count E) s)"
  unfolding isna_sum_conv to_datetime_isna
  by (induction s) (auto simp: date_count_def)

lemma notna_all_one:
  assumes "length s = n"
  shows "notna_all [s] n = map (\<lambda>c. c \<noteq> NA) s"
  using assms by (simp add: map2_map_map[symmetric] zip_replicate2 del: map2_map_map)

lemma map_cols_id:
  assumes "\<And>c s. (c, s) \<in> set df \<Longrightarrow> f s = s"
  shows "map_cols f df = df"
  using assms by (induction df) (auto simp: map_cols_def)

lemma dropna_one:
  assumes "map_of df c = Some s" and "length s = nrows df"
  shows "dropna [c] df = Inr (map_cols (select_rows (map (\<lambda>c. c \<noteq> NA) s)) df)"
  unfolding dropna_def
  by (simp add: getitem_Some[OF assms(1)] notna_all_one[OF assms(2)] del: notna_all.simps)

lemma print_nothing: "w\<lparr>console := console w @ []\<rparr> = w"
  by simp

lemma handle_invalid_dates_eq:
  assumes "rectangular df" and "map_of df ''Date'' = Some ds"
  shows "handle_invalid_dates E df w
           = (Inr (map_cols (select_rows (map (\<lambda>c. \<not> unparsable_date E c) ds))
                     (setitem df ''Date'' (to_datetime E ds))),
              w\<lparr>console := console w
                   @ (if 0 < sum_list (map (date_count E) ds)
                      then [DateWarning (sum_list (map (date_count E) ds))] else [])\<rparr>)"
proof -
  let ?d1 = "to_datetime E ds"
  let ?df1 = "setitem df ''Date'' ?d1"
  let ?keep = "map (\<lambda>c. \<not> unparsable_date E c) ds"
  have ne: "df \<noteq> []" using assms(2) by auto
  have len: "length ?d1 = nrows df"
    using rectangular_length[OF assms] by (simp add: to_datetime_def)
  have r1: "rectangular ?df1" and n1: "nrows ?df1 = nrows df"
    using rectangular_setitem[OF assms(1) ne len] by simp_all
  have g1: "map_of ?df1 ''Date'' = Some ?d1" by (simp add: map_of_setitem)
  have keep: "map (\<lambda>c. c \<noteq> NA) ?d1 = ?keep"
    by (auto simp: to_datetime_def unparsable_date_def split: option.splits)
  have drop: "dropna [''Date''] ?df1 = Inr (map_cols (select_rows ?keep) ?df1)"
    using dropna_one[OF g1] len n1 keep by simp
  show ?thesis
  proof (cases "0 < sum_list (map (date_count E) ds)")
    case True
    then show ?thesis
      by (simp add: handle_invalid_dates_def getitem_Some[OF assms(2)] getitem_Some[OF g1]
          Let_def isna_sum_datetime drop print_line_def)
  next
    case False
    then have all: "\<forall>b\<in>set ?keep. b"
      by (auto simp: date_count_def split: if_splits)
    have "map_cols (select_rows ?keep) ?df1 = ?df1"
    proof (rule map_cols_id)
      fix c s assume "(c, s) \<in> set ?df1"
      then have "length s = nrows ?df1"
        using r1 by (auto simp: rectangular_def list_all_iff)
      then have "length ?keep = length s" using n1 len by (simp add: to_datetime_def)
      then show "select_rows ?keep s = s" using all by (rule select_rows_all)
    qed
    moreover have "\<not> 0 < isna_sum ?d1" using False unfolding isna_sum_datetime .
    moreover have "(if 0 < sum_list (map (date_count E) ds)
                      then [DateWarning (sum_list (map (date_count E) ds))] else []) = []"
      using False by simp
    ultimately show ?thesis
      by (simp only: handle_invalid_dates_def getitem_Some[OF assms(2)] getitem_Some[OF g1]
          Let_def sum.case if_False print_nothing)
  qed
qed

lemma length_select_rows:
  assumes "length s = length keep"
  shows "length (select_rows keep s) = length (filter id keep)"
proof -
  have "map snd (filter snd (zip s keep)) = filter id (map snd (zip s keep))"
    by (simp add: filter_map comp_def)
  then have "length (filter snd (zip s keep)) = length (filter id keep)"
    using assms by (metis length_map map_snd_zip)
  then show ?thesis by (simp add: select_rows_def)
qed

lemma nrows_map_cols: "nrows (map_cols f df) = (case df of [] \<Rightarrow> 0 | (c, s) # _ \<Rightarrow> length (f s))"
  by (cases df) (auto simp: nrows_def map_cols_def)

lemma rectangular_select:
  assumes "rectangular df" and "length keep = nrows df" and "df \<noteq> []"
  shows "rectangular (map_cols (select_rows keep) df)"
    and "nrows (map_cols (select_rows keep) df) = length (filter id keep)"
proof -
  have each: "length (select_rows keep s) = length (filter id keep)" if "(c, s) \<in> set df" for c s
  proof -
    have "length s = length keep" using that assms(1,2) by (auto simp: rectangular_def list_all_iff)
    then show ?thesis by (rule length_select_rows)
  qed
  obtain c s rest where df: "df = (c, s) # rest" using assms(3) by (cases df) auto
  then have "(c, s) \<in> set df" by simp
  then have "length (select_rows keep s) = length (filter id keep)" by (rule each)
  then show n: "nrows (map_cols (select_rows keep) df) = length (filter id keep)"
    by (simp add: nrows_map_cols df)
  show "rectangular (map_cols (select_rows keep) df)"
    unfolding rectangular_def list_all_iff n
    using each by (auto simp: map_cols_def)
qed

lemma notna_all_two:
  assumes "length a = n" and "length b = n"
  shows "notna_all [a, b] n = map2 (\<lambda>x y. x \<noteq> NA \<and> y \<noteq> NA) a b"
proof -
  have "notna_all [b] n = map (\<lambda>c. c \<noteq> NA) b" using assms(2) by (rule notna_all_one)
  then have "notna_all [a, b] n = map2 (\<lambda>c k. c \<noteq> NA \<and> k) a (map (\<lambda>c. c \<noteq> NA) b)"
    by simp
  also have "\<dots> = map2 (\<lambda>x y. x \<noteq> NA \<and> y \<noteq> NA) a b"
    by (simp add: zip_map2 case_prod_unfold comp_def)
  finally show ?thesis .
qed

lemma dropna_two:
  assumes "map_of df c = Some a" and "map_of df c' = Some b"
    and "length a = nrows df" and "length b = nrows df"
  shows "dropna [c, c'] df = Inr (map_cols (select_rows (map2 (\<lambda>x y. x \<noteq> NA \<and> y \<noteq> NA) a b)) df)"
  unfolding dropna_def
  by (simp add: getitem_Some[OF assms(1)] getitem_Some[OF assms(2)]
      notna_all_two[OF assms(3,4)] del: notna_all.simps)

lemma isna_sum_zero: "isna_sum s = 0 \<longleftrightarrow> NA \<notin> set s"
  by (auto simp: isna_sum_def filter_empty_conv)

lemma clean_quantity_price_eq:
  assumes "rectangular df" and "map_of df ''Quantity'' = Some qs"
    and "map_of df ''Unit Price'' = Some ps"
  shows "clean_quantity_price E df w
           = (Inr (map_cols (select_rows (map2 (\<lambda>x y. x \<noteq> NA \<and> y \<noteq> NA)
                                            (to_numeric E qs) (to_numeric E ps)))
                     (setitem (setitem df ''Quantity'' (to_numeric E qs))
                        ''Unit Price'' (to_numeric E ps))),
              w\<lparr>console := console w
                   @ (if 0 < isna_sum (to_numeric E qs) + isna_sum (to_numeric E ps)
                      then [NumericWarning (isna_sum (to_numeric E qs) + isna_sum (to_numeric E ps))]
                      else [])\<rparr>)"
proof -
  let ?q1 = "to_numeric E qs"
  let ?p1 = "to_numeric E ps"
  let ?df1 = "setitem df ''Quantity'' ?q1"
  let ?df2 = "setitem ?df1 ''Unit Price'' ?p1"
  let ?keep = "map2 (\<lambda>x y. x \<noteq> NA \<and> y \<noteq> NA) ?q1 ?p1"
  let ?nn = "isna_sum ?q1 + isna_sum ?p1"
  have ne: "df \<noteq> []" using assms(2) by auto
  have lq: "length ?q1 = nrows df"
    using rectangular_length[OF assms(1,2)] by (simp add: to_numeric_def)
  have lp: "length ?p1 = nrows df"
    using rectangular_length[OF assms(1,3)] by (simp add: to_numeric_def)
  have r1: "rectangular ?df1" and n1: "nrows ?df1 = nrows df"
    using rectangular_setitem[OF assms(1) ne lq] by simp_all
  have ne1: "?df1 \<noteq> []" by (simp add: setitem_def)
  have lp1: "length ?p1 = nrows ?df1" using lp n1 by simp
  have r2: "rectangular ?df2" and n2: "nrows ?df2 = nrows df"
    using rectangular_setitem[OF r1 ne1 lp1] n1 by simp_all
  have g1: "getitem ?df1 ''Unit Price'' = Inr ps"
    using assms(3) by (simp add: getitem_def map_of_setitem)
  have mq: "map_of ?df2 ''Quantity'' = Some ?q1" by (simp add: map_of_setitem)
  have mp: "map_of ?df2 ''Unit Price'' = Some ?p1" by (simp add: map_of_setitem)
  have drop: "dropna [''Quantity'', ''Unit Price''] ?df2 = Inr (map_cols (select_rows ?keep) ?df2)"
    using dropna_two[OF mq mp] lq lp n2 by simp
  have head: "clean_quantity_price E df w
      = (if 0 < ?nn then (dropna [''Quantity'', ''Unit Price''] ?df2, print_line (NumericWarning ?nn) w)
         else (Inr ?df2, w))"
    by (simp only: clean_quantity_price_def getitem_Some[OF assms(2)] g1
        getitem_Some[OF mq] getitem_Some[OF mp] Let_def sum.case ebind_Inr)
  show ?thesis
  proof (cases "0 < ?nn")
    case True
    then show ?thesis unfolding head drop by (simp add: print_line_def)
  next
    case False
    then have "NA \<notin> set ?q1" "NA \<notin> set ?p1" by (simp_all add: isna_sum_zero)
    then have all: "\<forall>b\<in>set ?keep. b"
      by (auto dest: set_zip_leftD set_zip_rightD)
    have "map_cols (select_rows ?keep) ?df2 = ?df2"
    proof (rule map_cols_id)
      fix c s assume "(c, s) \<in> set ?df2"
      then have "length s = nrows ?df2"
        using r2 by (auto simp: rectangular_def list_all_iff)
      then have "length ?keep = length s" using lq lp n2 by simp
      then show "select_rows ?keep s = s" using all by (rule select_rows_all)
    qed
    moreover have "(if 0 < ?nn then [NumericWarning ?nn] else []) = []" using False by simp
    ultimately show ?thesis unfolding head using False
      by (simp only: if_False print_nothing)
  qed
qed

lemma isna_sum_numeric_selected:
  assumes "length ds = length xs"
  shows "isna_sum (to_numeric E (select_rows (map (\<lambda>c. \<not> unparsable_date E c) ds) xs))
           = sum_list (map (\<lambda>(d, x). if unparsable_date E d then 0
                                       else if unparsable_number E x then 1 else 0) (zip ds xs))"
  using assms
  by (induction ds xs rule: list_induct2)
     (auto simp: select_rows_def isna_sum_def to_numeric_def unparsable_number_def
       split: option.splits)

lemma numeric_tally:
  assumes "length ds = length qs" and "length qs = length ps"
  shows "isna_sum (to_numeric E (select_rows (map (\<lambda>c. \<not> unparsable_date E c) ds) qs))
         + isna_sum (to_numeric E (select_rows (map (\<lambda>c. \<not> unparsable_date E c) ds) ps))
           = sum_list (map (numeric_count E) (zip ds (zip qs ps)))"
proof -
  have "sum_list (map (numeric_count E) (zip ds (zip qs ps)))
      = sum_list (map (\<lambda>(d, x). if unparsable_date E d then 0
                                       else if unparsable_number E x then 1 else 0) (zip ds qs))
        + sum_list (map (\<lambda>(d, x). if unparsable_date E d then 0
                                       else if unparsable_number E x then 1 else 0) (zip ds ps))"
    using assms by (induction ds qs ps rule: list_induct3) (auto simp: numeric_count_def)
  moreover have "length ds = length ps" using assms by simp
  ultimately show ?thesis
    using assms(1) by (simp add: isna_sum_numeric_selected)
qed

lemma set_select_rows: "set (select_rows keep s) \<subseteq> set s"
  by (auto simp: select_rows_def dest: set_zip_leftD)

lemma select_present_left:
  assumes "length a = length b"
  shows "NA \<notin> set (select_rows (map2 (\<lambda>x y. x \<noteq> NA \<and> y \<noteq> NA) a b) a)"
  using assms by (induction a b rule: list_induct2) (auto simp: select_rows_def)

lemma select_present_right:
  assumes "length a = length b"
  shows "NA \<notin> set (select_rows (map2 (\<lambda>x y. x \<noteq> NA \<and> y \<noteq> NA) a b) b)"
  using assms by (induction a b rule: list_induct2) (auto simp: select_rows_def)

lemma to_numeric_cells: "c \<in> set (to_numeric E s) \<Longrightarrow> c = NA \<or> is_number c"
  by (auto simp: to_numeric_def split: option.splits)

lemma to_datetime_selected:
  assumes "valid_dates E"
  shows "list_all is_datetime
           (select_rows (map (\<lambda>c. \<not> unparsable_date E c) ds) (to_datetime E ds))"
proof (induction ds)
  case Nil
  then show ?case by (simp add: select_rows_def to_datetime_def)
next
  case (Cons a ds)
  have "is_datetime (Datetime y m d)" if "parse_datetime E a = Some (y, m, d)" for y m d
    using assms that unfolding valid_dates_def by blast
  then show ?case using Cons
    by (auto simp: select_rows_def to_datetime_def unparsable_date_def split: option.splits)
qed

lemma required_column:
  assumes "required_columns \<subseteq> set (columns df)" and "c \<in> required_columns"
  shows "map_of df c = Some (column df c)"
proof -
  have "c \<in> set (columns df)" using assms by auto
  then obtain s where "map_of df c = Some s" by (auto simp: in_columns_iff)
  then show ?thesis by (simp add: column_Some)
qed

lemma total_sale_eq:
  assumes "map_of df ''Quantity'' = Some qs" and "map_of df ''Unit Price'' = Some ps"
  shows "total_sale df = Inr (setitem df ''Total Sale'' (map2 cell_mul qs ps))"
  by (simp add: total_sale_def getitem_Some[OF assms(1)] getitem_Some[OF assms(2)])

lemma warnings_append:
  "w\<lparr>console := console w @ (if 0 < nd then [DateWarning nd] else [])\<rparr>
    \<lparr>console := console (w\<lparr>console := console w @ (if 0 < nd then [DateWarning nd] else [])\<rparr>)
                  @ (if 0 < nn then [NumericWarning nn] else [])\<rparr>
   = w\<lparr>console := console w @ warnings nd nn\<rparr>"
  by (simp add: warnings_def)

lemma kept_rows:
  assumes "length ds = length qs" and "length qs = length ps"
  shows "length (filter id (map2 (\<lambda>x y. x \<noteq> NA \<and> y \<noteq> NA)
            (to_numeric E (select_rows (map (\<lambda>c. \<not> unparsable_date E c) ds) qs))
            (to_numeric E (select_rows (map (\<lambda>c. \<not> unparsable_date E c) ds) ps))))
         = length (filter (\<lambda>r. \<not> unparsable_date E (fst r) \<and> numeric_count E r = 0)
                     (zip ds (zip qs ps)))"
  using assms
  by (induction ds qs ps rule: list_induct3)
     (auto simp: select_rows_def to_numeric_def numeric_count_def unparsable_number_def
       split: option.splits)

lemma read_sales_data_result:
  assumes csv: "read_csv E f = Frame df" and rect: "rectangular df"
    and req: "required_columns \<subseteq> set (columns df)"
  shows "\<exists>out. read_sales_data E f w
            = (Inr out, w\<lparr>console := console w
                 @ warnings (sum_list (map (date_count E) (column df ''Date'')))
                            (sum_list (map (numeric_count E) (raw_rows df)))\<rparr>)
          \<and> nrows out = length (filter (\<lambda>r. \<not> unparsable_date E (fst r) \<and> numeric_count E r = 0)
                                  (raw_rows df))
          \<and> (valid_dates E \<longrightarrow> cleaned_table out)"
proof -
  let ?ds = "column df ''Date''" and ?qs = "column df ''Quantity''"
    and ?ps = "column df ''Unit Price''"
  let ?kd = "map (\<lambda>c. \<not> unparsable_date E c) ?ds"
  let ?d1 = "to_datetime E ?ds"
  let ?A1 = "setitem df ''Date'' ?d1"
  let ?A2 = "map_cols (select_rows ?kd) ?A1"
  let ?q2 = "select_rows ?kd ?qs" and ?p2 = "select_rows ?kd ?ps"
  let ?q3 = "to_numeric E ?q2" and ?p3 = "to_numeric E ?p2"
  let ?kn = "map2 (\<lambda>x y. x \<noteq> NA \<and> y \<noteq> NA) ?q3 ?p3"
  let ?A3 = "setitem (setitem ?A2 ''Quantity'' ?q3) ''Unit Price'' ?p3"
  let ?A4 = "map_cols (select_rows ?kn) ?A3"
  let ?q4 = "select_rows ?kn ?q3" and ?p4 = "select_rows ?kn ?p3"
  let ?out = "setitem ?A4 ''Total Sale'' (map2 cell_mul ?q4 ?p4)"
  let ?nd = "sum_list (map (date_count E) ?ds)"
  let ?nn = "isna_sum ?q3 + isna_sum ?p3"
  have md: "map_of df ''Date'' = Some ?ds" and mq: "map_of df ''Quantity'' = Some ?qs"
    and mp: "map_of df ''Unit Price'' = Some ?ps"
    using required_column[OF req] by (simp_all add: required_columns_def)
  have ld: "length ?ds = nrows df" and lq: "length ?qs = nrows df" and lp: "length ?ps = nrows df"
    using rectangular_length[OF rect md] rectangular_length[OF rect mq]
      rectangular_length[OF rect mp] by simp_all
  have ne: "df \<noteq> []" using md by auto
  \<comment> \<open>after the dates\<close>
  have l1: "length ?d1 = nrows df" using ld by (simp add: to_datetime_def)
  have r1: "rectangular ?A1" and n1: "nrows ?A1 = nrows df"
    using rectangular_setitem[OF rect ne l1] by simp_all
  have ne1: "?A1 \<noteq> []" by (simp add: setitem_def)
  have lk: "length ?kd = nrows ?A1" using ld n1 by simp
  have r2: "rectangular ?A2" by (rule rectangular_select(1)[OF r1 lk ne1])
  have ne2: "?A2 \<noteq> []" using ne1 by (simp add: map_cols_def)
  have mq2: "map_of ?A2 ''Quantity'' = Some ?q2"
    using mq by (simp add: map_of_map_cols map_of_setitem)
  have mp2: "map_of ?A2 ''Unit Price'' = Some ?p2"
    using mp by (simp add: map_of_map_cols map_of_setitem)
  have md2: "map_of ?A2 ''Date'' = Some (select_rows ?kd ?d1)"
    by (simp add: map_of_map_cols map_of_setitem)
  \<comment> \<open>after the numbers\<close>
  have lq3: "length ?q3 = nrows ?A2"
    using rectangular_length[OF r2 mq2] by (simp add: to_numeric_def)
  have lp3: "length ?p3 = nrows ?A2"
    using rectangular_length[OF r2 mp2] by (simp add: to_numeric_def)
  let ?B = "setitem ?A2 ''Quantity'' ?q3"
  have rB: "rectangular ?B" and nB: "nrows ?B = nrows ?A2"
    using rectangular_setitem[OF r2 ne2 lq3] by simp_all
  have neB: "?B \<noteq> []" by (simp add: setitem_def)
  have lp3B: "length ?p3 = nrows ?B" using lp3 nB by simp
  have r3: "rectangular ?A3" and n3: "nrows ?A3 = nrows ?A2"
    using rectangular_setitem[OF rB neB lp3B] nB by simp_all
  have ne3: "?A3 \<noteq> []" by (simp add: setitem_def)
  have lkn: "length ?kn = nrows ?A3" using lq3 lp3 n3 by simp
  have r4: "rectangular ?A4" by (rule rectangular_select(1)[OF r3 lkn ne3])
  have ne4: "?A4 \<noteq> []" using ne3 by (simp add: map_cols_def)
  have mq4: "map_of ?A4 ''Quantity'' = Some ?q4"
    by (simp add: map_of_map_cols map_of_setitem)
  have mp4: "map_of ?A4 ''Unit Price'' = Some ?p4"
    by (simp add: map_of_map_cols map_of_setitem)
  have md4: "map_of ?A4 ''Date'' = Some (select_rows ?kn (select_rows ?kd ?d1))"
    using md2 by (simp add: map_of_map_cols map_of_setitem)
  \<comment> \<open>the three phases\<close>
  have h1: "handle_invalid_dates E df w
      = (Inr ?A2, w\<lparr>console := console w @ (if 0 < ?nd then [DateWarning ?nd] else [])\<rparr>)"
    by (rule handle_invalid_dates_eq[OF rect md])
  let ?w1 = "w\<lparr>console := console w @ (if 0 < ?nd then [DateWarning ?nd] else [])\<rparr>"
  have h2: "clean_quantity_price E ?A2 ?w1
      = (Inr ?A4, ?w1\<lparr>console := console ?w1
                       @ (if 0 < ?nn then [NumericWarning ?nn] else [])\<rparr>)"
    by (rule clean_quantity_price_eq[OF r2 mq2 mp2])
  have h3: "total_sale ?A4 = Inr ?out" by (rule total_sale_eq[OF mq4 mp4])
  have nn: "?nn = sum_list (map (numeric_count E) (raw_rows df))"
    unfolding raw_rows_def by (rule numeric_tally) (simp_all add: ld lq lp)
  have run: "read_sales_data E f w
      = (Inr ?out, w\<lparr>console := console w
                 @ warnings ?nd (sum_list (map (numeric_count E) (raw_rows df)))\<rparr>)"
    unfolding read_sales_data_def csv using req
    by (simp only: csv_result.case not_True_eq_False simp_thms if_False h1 h2 h3
        prod.case sum.case warnings_append nn)
  \<comment> \<open>the table returned\<close>
  have cols: "set (columns df) \<subseteq> set (columns ?out)" and ts: "''Total Sale'' \<in> set (columns ?out)"
    by (auto simp: columns_setitem columns_map_cols)
  have l4: "length ?q4 = length ?p4"
    using lq3 lp3 by (simp add: length_select_rows)
  have lq4: "length ?q4 = nrows ?A4" by (rule rectangular_length[OF r4 mq4])
  have rout: "rectangular ?out"
    using rectangular_setitem[OF r4 ne4, of "map2 cell_mul ?q4 ?p4" "''Total Sale''"] l4 lq4
    by simp
  have cq: "column ?out ''Quantity'' = ?q4" and cp: "column ?out ''Unit Price'' = ?p4"
    and cd: "column ?out ''Date'' = select_rows ?kn (select_rows ?kd ?d1)"
    and ct: "column ?out ''Total Sale'' = map2 cell_mul ?q4 ?p4"
    using mq4 mp4 md4 by (simp_all add: column_def map_of_setitem)
  have l3: "length ?q3 = length ?p3" using lq3 lp3 by simp
  have numq: "list_all is_number ?q4"
    unfolding list_all_iff
  proof
    fix c assume c: "c \<in> set ?q4"
    then have "c \<noteq> NA" using select_present_left[OF l3] by auto
    moreover have "c \<in> set ?q3" using c set_select_rows by blast
    ultimately show "is_number c" using to_numeric_cells by blast
  qed
  have nump: "list_all is_number ?p4"
    unfolding list_all_iff
  proof
    fix c assume c: "c \<in> set ?p4"
    then have "c \<noteq> NA" using select_present_right[OF l3] by auto
    moreover have "c \<in> set ?p3" using c set_select_rows by blast
    ultimately show "is_number c" using to_numeric_cells by blast
  qed
  have dates: "list_all is_datetime (select_rows ?kn (select_rows ?kd ?d1))" if "valid_dates E"
  proof -
    have "list_all is_datetime (select_rows ?kd ?d1)" by (rule to_datetime_selected[OF that])
    then show ?thesis
      unfolding list_all_iff using set_select_rows by blast
  qed
  have cl: "cleaned_table ?out" if "valid_dates E"
    unfolding cleaned_table_def cq cp cd ct
    using rout req cols ts numq nump dates[OF that] by auto
  have "nrows ?out = nrows ?A4"
    using rectangular_setitem[OF r4 ne4, of "map2 cell_mul ?q4 ?p4" "''Total Sale''"] l4 lq4
    by simp
  also have "\<dots> = length (filter id ?kn)" by (rule rectangular_select(2)[OF r3 lkn ne3])
  also have "\<dots> = length (filter (\<lambda>r. \<not> unparsable_date E (fst r) \<and> numeric_count E r = 0)
                                  (raw_rows df))"
    unfolding raw_rows_def by (rule kept_rows) (simp_all add: ld lq lp)
  finally have nr: "nrows ?out = length (filter (\<lambda>r. \<not> unparsable_date E (fst r) \<and> numeric_count E r = 0)
                                  (raw_rows df))" .
  show ?thesis
    apply (rule exI[of _ ?out])
    using run nr cl apply (intro conjI impI)
      apply assumption+
    done
qed

subsection \<open>The sample environment\<close>

lemma sample_read_csv [simp]: "read_csv (sample_env it r) INPUT_FILE = r"
  by (simp add: sample_env_def)

lemma sample_parsers [simp]:
  "parse_datetime (sample_env it r) = sample_datetime"
  "parse_numeric (sample_env it r) = sample_numeric"
  "set_iter (sample_env it r) = it"
  by (simp_all add: sample_env_def)

lemma valid_dates_sample: "valid_dates (sample_env it r)"
  unfolding valid_dates_def
proof (intro allI impI)
  fix c y m d
  assume "parse_datetime (sample_env it r) c = Some (y, m, d)"
  then have "sample_datetime c = Some (y, m, d)" by simp
  then show "is_datetime (Datetime y m d)"
    by (cases c) (auto split: if_splits option.splits)
qed

lemmas sample_eval = unparsable_date_def unparsable_number_def date_count_def numeric_count_def
  parse_nat_def raw_rows_def column_def warnings_def

lemma iterates_sorted: "iterates sorted_list_of_set"
  by (simp add: iterates_def)

lemma iterates_rev_sorted: "iterates (rev \<circ> sorted_list_of_set)"
  by (simp add: iterates_def)

lemma missing_nonempty:
  assumes "\<not> required_columns \<subseteq> set (columns df)"
  shows "required_columns - set (columns df) \<noteq> {}" and "finite (required_columns - set (columns df))"
  using assms by (auto simp: required_columns_def)

lemma singleton_list:
  assumes "set ms = {x}" and "distinct ms"
  shows "ms = [x]"
proof (cases ms)
  case Nil
  then show ?thesis using assms by simp
next
  case (Cons a rest)
  then have "a = x" using assms(1) by auto
  moreover have "rest = []"
  proof (cases rest)
    case Nil
    then show ?thesis .
  next
    case (Cons b more)
    then have "b \<in> set ms" "b \<noteq> a" using \<open>ms = a # rest\<close> assms(2) by auto
    then show ?thesis using assms(1) \<open>a = x\<close> by auto
  qed
  ultimately show ?thesis using Cons by simp
qed

subsection \<open>What read_sales_data prints\<close>

lemma printed_warnings_refl: "\<exists>ws. w = w\<lparr>console := console w @ ws\<rparr> \<and> list_all is_warning ws"
  by (rule exI[of _ "[]"]) simp

lemma handle_invalid_dates_world:
  "\<exists>ws. snd (handle_invalid_dates E df w) = w\<lparr>console := console w @ ws\<rparr> \<and> list_all is_warning ws"
proof (cases "getitem df ''Date''")
  case (Inl e)
  then show ?thesis by (simp add: handle_invalid_dates_def printed_warnings_refl)
next
  case (Inr ds)
  show ?thesis
  proof (cases "getitem (setitem df ''Date'' (to_datetime E ds)) ''Date''")
    case (Inl e)
    then show ?thesis using Inr by (simp add: handle_invalid_dates_def printed_warnings_refl)
  next
    case (Inr ds1)
    show ?thesis
    proof (cases "0 < isna_sum ds1")
      case True
      have "snd (handle_invalid_dates E df w) = w\<lparr>console := console w @ [DateWarning (isna_sum ds1)]\<rparr>"
        using \<open>getitem df ''Date'' = Inr ds\<close> Inr True
        by (simp add: handle_invalid_dates_def Let_def print_line_def)
      then show ?thesis by (intro exI[of _ "[DateWarning (isna_sum ds1)]"]) simp
    next
      case False
      then show ?thesis using \<open>getitem df ''Date'' = Inr ds\<close> Inr
        by (simp add: handle_invalid_dates_def Let_def printed_warnings_refl)
    qed
  qed
qed

lemma clean_quantity_price_world:
  "\<exists>ws. snd (clean_quantity_price E df w) = w\<lparr>console := console w @ ws\<rparr> \<and> list_all is_warning ws"
proof (cases "getitem df ''Quantity''")
  case (Inl e)
  then show ?thesis by (simp add: clean_quantity_price_def printed_warnings_refl)
next
  case q: (Inr qs)
  let ?df1 = "setitem df ''Quantity'' (to_numeric E qs)"
  show ?thesis
  proof (cases "getitem ?df1 ''Unit Price''")
    case (Inl e)
    then show ?thesis using q by (simp add: clean_quantity_price_def printed_warnings_refl)
  next
    case p: (Inr ps)
    let ?df2 = "setitem ?df1 ''Unit Price'' (to_numeric E ps)"
    let ?n = "ebind (getitem ?df2 ''Quantity'') (\<lambda>q2.
                ebind (getitem ?df2 ''Unit Price'') (\<lambda>p2. Inr (isna_sum q2 + isna_sum p2)))"
    show ?thesis
    proof (cases ?n)
      case (Inl e)
      then show ?thesis using q p
        by (simp add: clean_quantity_price_def Let_def printed_warnings_refl)
    next
      case n: (Inr k)
      show ?thesis
      proof (cases "0 < k")
        case True
        have "snd (clean_quantity_price E df w) = w\<lparr>console := console w @ [NumericWarning k]\<rparr>"
          using q p n True by (simp add: clean_quantity_price_def Let_def print_line_def)
        then show ?thesis by (intro exI[of _ "[NumericWarning k]"]) simp
      next
        case False
        then show ?thesis using q p n
          by (simp add: clean_quantity_price_def Let_def printed_warnings_refl)
      qed
    qed
  qed
qed

lemma read_sales_data_world:
  "\<exists>ws. snd (read_sales_data E f w) = w\<lparr>console := console w @ ws\<rparr> \<and> list_all is_warning ws"
proof (cases "read_csv E f")
  case FileNotFoundError
  then show ?thesis by (simp add: read_sales_data_def printed_warnings_refl)
next
  case (OtherError e)
  then show ?thesis by (simp add: read_sales_data_def printed_warnings_refl)
next
  case (Frame df)
  show ?thesis
  proof (cases "required_columns \<subseteq> set (columns df)")
    case False
    then show ?thesis using Frame by (simp add: read_sales_data_def printed_warnings_refl)
  next
    case True
    obtain r1 w1 where h1: "handle_invalid_dates E df w = (r1, w1)"
      by (cases "handle_invalid_dates E df w")
    from handle_invalid_dates_world[of E df w] h1 obtain ws1 where
      w1: "w1 = w\<lparr>console := console w @ ws1\<rparr>" and a1: "list_all is_warning ws1" by auto
    show ?thesis
    proof (cases r1)
      case (Inl e)
      then have "snd (read_sales_data E f w) = w1"
        using Frame True h1 by (simp add: read_sales_data_def)
      then show ?thesis using w1 a1 by blast
    next
      case (Inr df1)
      obtain r2 w2 where h2: "clean_quantity_price E df1 w1 = (r2, w2)"
        by (cases "clean_quantity_price E df1 w1")
      from clean_quantity_price_world[of E df1 w1] h2 obtain ws2 where
        w2: "w2 = w1\<lparr>console := console w1 @ ws2\<rparr>" and a2: "list_all is_warning ws2" by auto
      have "snd (read_sales_data E f w) = w2"
        using Frame True h1 Inr h2 by (cases r2) (simp_all add: read_sales_data_def)
      moreover have "w2 = w\<lparr>console := console w @ (ws1 @ ws2)\<rparr>"
        using w1 w2 by simp
      moreover have "list_all is_warning (ws1 @ ws2)" using a1 a2 by simp
      ultimately show ?thesis by blast
    qed
  qed
qed

subsection \<open>The iteration order of sets\<close>

lemma set_iter_update_fields [simp]:
  "read_csv (E\<lparr>set_iter := it\<rparr>) = read_csv E"
  "parse_datetime (E\<lparr>set_iter := it\<rparr>) = parse_datetime E"
  "parse_numeric (E\<lparr>set_iter := it\<rparr>) = parse_numeric E"
  "to_string (E\<lparr>set_iter := it\<rparr>) = to_string E"
  "excel_write (E\<lparr>set_iter := it\<rparr>) = excel_write E"
  by simp_all

lemma coercion_independent_of_iteration_order:
  "to_datetime (E\<lparr>set_iter := it\<rparr>) = to_datetime E"
  "to_numeric (E\<lparr>set_iter := it\<rparr>) = to_numeric E"
  by (rule ext, simp add: to_datetime_def to_numeric_def)+

lemma phases_independent_of_iteration_order:
  "handle_invalid_dates (E\<lparr>set_iter := it\<rparr>) df w = handle_invalid_dates E df w"
  "clean_quantity_price (E\<lparr>set_iter := it\<rparr>) df w = clean_quantity_price E df w"
  "print_console_table (E\<lparr>set_iter := it\<rparr>) title df w = print_console_table E title df w"
  "save_to_excel (E\<lparr>set_iter := it\<rparr>) p s m y out w = save_to_excel E p s m y out w"
  unfolding handle_invalid_dates_def clean_quantity_price_def print_console_table_def
    save_to_excel_def coercion_independent_of_iteration_order set_iter_update_fields
  by (rule refl)+

lemma iteration_of_at_most_one:
  assumes "iterates it" and "iterates it'" and "finite M" and "card M \<le> 1"
  shows "it M = it' M"
proof (cases "M = {}")
  case True
  then show ?thesis using assms(1,2) unfolding iterates_def
    by (metis finite.emptyI set_empty)
next
  case False
  then have "card M = 1" using assms(3,4) by (simp add: le_Suc_eq card_eq_0_iff)
  then obtain x where M: "M = {x}" by (auto simp: card_1_singleton_iff)
  have "it M = [x]" using assms(1,3) unfolding iterates_def M by (intro singleton_list) auto
  moreover have "it' M = [x]" using assms(2,3) unfolding iterates_def M by (intro singleton_list) auto
  ultimately show ?thesis by simp
qed

lemma read_sales_data_independent:
  assumes "iterates (set_iter E)" and "iterates it"
    and "case read_csv E f of Frame df \<Rightarrow> card (required_columns - set (columns df)) \<le> 1
         | _ \<Rightarrow> True"
  shows "read_sales_data (E\<lparr>set_iter := it\<rparr>) f w = read_sales_data E f w"
proof (cases "read_csv E f")
  case FileNotFoundError
  then show ?thesis by (simp add: read_sales_data_def)
next
  case (OtherError e)
  then show ?thesis by (simp add: read_sales_data_def)
next
  case (Frame df)
  have "finite (required_columns - set (columns df))" by (simp add: required_columns_def)
  moreover have "card (required_columns - set (columns df)) \<le> 1" using assms(3) Frame by simp
  ultimately have "it (required_columns - set (columns df))
      = set_iter E (required_columns - set (columns df))"
    using iteration_of_at_most_one[OF assms(2,1)] by blast
  then show ?thesis
    unfolding read_sales_data_def phases_independent_of_iteration_order set_iter_update_fields Frame
    by simp
qed

lemma missing_two_sorted:
  "sorted_list_of_set (required_columns - set (columns missing_two)) = [''Date'', ''Product'']"
proof -
  have "required_columns - set (columns missing_two) = {''Date'', ''Product''}"
    by (simp add: required_columns_def columns_def missing_two_def insert_Diff_if)
  then show ?thesis by simp
qed

subsection \<open>The tables read_sales_data returns, and the scenario of the specification\<close>

lemma read_sales_data_cleaned:
  assumes "read_csv E f = Frame df" and "rectangular df"
    and "required_columns \<subseteq> set (columns df)" and "valid_dates E"
  shows "\<exists>out. fst (read_sales_data E f w) = Inr out \<and> cleaned_table out"
proof -
  from read_sales_data_result[OF assms(1-3), of w] obtain out where
    "read_sales_data E f w
       = (Inr out, w\<lparr>console := console w
                 @ warnings (sum_list (map (date_count E) (column df ''Date'')))
                            (sum_list (map (numeric_count E) (raw_rows df)))\<rparr>)"
    and "valid_dates E \<longrightarrow> cleaned_table out" by blast
  then show ?thesis using assms(4) by simp
qed

lemma scenario_read:
  "read_sales_data (sample_env sorted_list_of_set (Frame scenario)) INPUT_FILE w
     = (Inr scenario_cleaned, w\<lparr>console := console w @ [DateWarning 1]\<rparr>)"
proof -
  let ?E = "sample_env sorted_list_of_set (Frame scenario)"
  let ?A2 = "[(''Date'', [Datetime 2024 1 5, Datetime 2024 2 1]),
      (''Product'', [Text ''Widget'', Text ''Widget'']),
      (''Quantity'', [Text ''2'', Text ''1'']),
      (''Unit Price'', [Text ''10.0'', Text ''10.0'']),
      (''Salesperson'', [Text ''Alice'', Text ''Bob''])]"
  let ?A4 = "[(''Date'', [Datetime 2024 1 5, Datetime 2024 2 1]),
      (''Product'', [Text ''Widget'', Text ''Widget'']),
      (''Quantity'', [Number 2, Number 1]),
      (''Unit Price'', [Number 10, Number 10]),
      (''Salesperson'', [Text ''Alice'', Text ''Bob''])]"
  let ?w1 = "w\<lparr>console := console w @ [DateWarning 1]\<rparr>"
  have req: "required_columns \<subseteq> set (columns scenario)"
    by (simp add: required_columns_def scenario_def columns_def)
  have b: "rectangular scenario"
    by (simp add: rectangular_def scenario_def nrows_def)
  have md: "map_of scenario ''Date'' = Some [Text ''2024-01-05'', Text ''2024-02-01'', Text ''bad-date'']"
    by (simp add: scenario_def)
  have h1: "handle_invalid_dates ?E scenario w = (Inr ?A2, ?w1)"
    unfolding handle_invalid_dates_eq[OF b md]
    by (simp add: sample_eval scenario_def to_datetime_def select_rows_def map_cols_def setitem_def)
  have b2: "rectangular ?A2" by (simp add: rectangular_def nrows_def)
  have mq: "map_of ?A2 ''Quantity'' = Some [Text ''2'', Text ''1'']" by simp
  have mp: "map_of ?A2 ''Unit Price'' = Some [Text ''10.0'', Text ''10.0'']" by simp
  have h2: "clean_quantity_price ?E ?A2 ?w1 = (Inr ?A4, ?w1)"
    unfolding clean_quantity_price_eq[OF b2 mq mp]
    by (simp add: sample_eval to_numeric_def select_rows_def map_cols_def setitem_def isna_sum_def)
  have h3: "total_sale ?A4 = Inr scenario_cleaned"
    by (simp add: total_sale_def getitem_def setitem_def scenario_cleaned_def)
  have csv: "read_csv ?E INPUT_FILE = Frame scenario" by simp
  show ?thesis
    unfolding read_sales_data_def csv using req
    by (simp only: csv_result.case not_True_eq_False simp_thms if_False h1 h2 h3
        prod.case sum.case)
qed

lemma scenario_summaries:
  "fst (generate_product_sales scenario_cleaned)
     = Inr [(''Product'', [Text ''Widget'']), (''Total Sale'', [Number 30])]"
  "fst (generate_salesperson_sales scenario_cleaned)
     = Inr [(''Salesperson'', [Text ''Alice'', Text ''Bob'']), (''Total Sale'', [Number 20, Number 10])]"
  "fst (generate_monthly_sales scenario_cleaned)
     = Inr [(''YearMonth'', [Text ''2024-01'', Text ''2024-02'']), (''Total Sale'', [Number 20, Number 10])]"
  by code_simp+

lemma scenario_ytd:
  "fst (generate_ytd_sales scenario_cleaned)
     = Inr [(''Year'', [Number 2024]), (''Total Sale'', [Number 30])]"
proof -
  have d: "getitem scenario_cleaned ''Date'' = Inr [Datetime 2024 1 5, Datetime 2024 2 1]"
    by (simp add: getitem_def scenario_cleaned_def)
  have k: "map_of (setitem scenario_cleaned ''Year'' [Number 2024, Number 2024]) ''Year''
      = Some [Number 2024, Number 2024]"
    by (simp add: map_of_setitem)
  have v: "map_of (setitem scenario_cleaned ''Year'' [Number 2024, Number 2024]) ''Total Sale''
      = Some [Number 20, Number 10]"
    by (simp add: map_of_setitem scenario_cleaned_def)
  have kv: "present_pairs [Number 2024, Number 2024] [Number 20, Number 10]
      = [(Number 2024, Number 20), (Number 2024, Number 10)]"
    by (simp add: present_pairs_def)
  have gk: "group_keys [(Number 2024, Number 20), (Number 2024, Number 10)] = [Number 2024]"
    by (simp add: group_keys_def)
  have gs: "group_sum [(Number 2024, Number 20), (Number 2024, Number 10)] (Number 2024) = Number 30"
    by (simp add: group_sum_def)
  have a: "argsort True [Number 2024] = [0]"
    by (simp add: argsort_def)
  show ?thesis
    by (simp add: generate_ytd_sales_def d dt_def Let_def groupby_sum_eq[OF k v] kv gk gs
        sort_values_keys a)
qed

section \<open>The entry point\<close>

text \<open>
  C9. Run as a script, the module looks up the name \<open>_name_\<close>, which it never binds
  and which is no builtin: the guard raises NameError, \<open>main\<close> is not called, nothing
  is printed and no file is written, whatever the input and the environment.
\<close>

theorem script_guard_raises_name_error:
  "run_script E w = (Inl (NameError ''_name_''), w)"
  by (simp add: run_script_def lookup_name_def module_globals_def builtin_names_def)

theorem script_guard_raises_name_error_witness:
  "run_script (sample_env sorted_list_of_set (Frame scenario)) world0
     = (Inl (NameError ''_name_''), world0)"
  by (rule script_guard_raises_name_error)

section \<open>The totals of the summaries\<close>




section \<open>The order of the summaries\<close>






section \<open>Rows without a key\<close>



section \<open>What the summaries do to the table\<close>

text \<open>
  C4, as amended. For a cleaned table, \<open>generate_product_sales\<close> and
  \<open>generate_salesperson_sales\<close> leave the table as it was. \<open>generate_monthly_sales\<close>
  sets the column YearMonth of the caller's table to the periods of its dates, and
  \<open>generate_ytd_sales\<close> the column Year to their years: a new last column, or the
  column of that name replaced. Every other column is unchanged, and so are the number of
  rows and the shape of the table. Each result is a function of the table passed in.
\<close>

theorem aggregation_effects:
  assumes "cleaned_table df"
  shows "snd (generate_product_sales df) = df
       \<and> snd (generate_salesperson_sales df) = df
       \<and> snd (generate_monthly_sales df)
           = setitem df ''YearMonth'' (map to_period_M (column df ''Date''))
       \<and> snd (generate_ytd_sales df)
           = setitem df ''Year'' (map year_of (column df ''Date''))
       \<and> (\<forall>c. c \<noteq> ''YearMonth'' \<longrightarrow> map_of (snd (generate_monthly_sales df)) c = map_of df c)
       \<and> (\<forall>c. c \<noteq> ''Year'' \<longrightarrow> map_of (snd (generate_ytd_sales df)) c = map_of df c)
       \<and> columns (snd (generate_monthly_sales df))
           = (if ''YearMonth'' \<in> set (columns df) then columns df else columns df @ [''YearMonth''])
       \<and> columns (snd (generate_ytd_sales df))
           = (if ''Year'' \<in> set (columns df) then columns df else columns df @ [''Year''])
       \<and> rectangular (snd (generate_monthly_sales df))
       \<and> nrows (snd (generate_monthly_sales df)) = nrows df
       \<and> rectangular (snd (generate_ytd_sales df))
       \<and> nrows (snd (generate_ytd_sales df)) = nrows df"
proof -
  from monthly_summary[OF assms] obtain mp m where
    M: "generate_monthly_sales df
               = (Inr m, setitem df ''YearMonth'' (map to_period_M (column df ''Date'')))" by blast
  from ytd_summary[OF assms] obtain y where
    Y: "generate_ytd_sales df = (Inr y, setitem df ''Year'' (map year_of (column df ''Date'')))"
    by blast
  have r: "rectangular df" using assms by (simp add: cleaned_table_def)
  have l: "length (column df ''Date'') = nrows df"
    using cleaned_column[OF assms, of "''Date''"] by (simp add: required_columns_def)
  have ne: "df \<noteq> []" using assms by (auto simp: cleaned_table_def columns_def required_columns_def)
  have rm: "rectangular (setitem df ''YearMonth'' (map to_period_M (column df ''Date'')))
      \<and> nrows (setitem df ''YearMonth'' (map to_period_M (column df ''Date''))) = nrows df"
    by (rule rectangular_setitem[OF r ne]) (simp add: l)
  have ry: "rectangular (setitem df ''Year'' (map year_of (column df ''Date'')))
      \<and> nrows (setitem df ''Year'' (map year_of (column df ''Date''))) = nrows df"
    by (rule rectangular_setitem[OF r ne]) (simp add: l)
  show ?thesis
    using rm ry
    by (simp add: M Y generate_product_sales_def generate_salesperson_sales_def
        map_of_setitem columns_setitem)
qed

theorem aggregation_effects_witness:
  "cleaned_table missing_product
   \<and> snd (generate_product_sales missing_product) = missing_product
   \<and> snd (generate_salesperson_sales missing_product) = missing_product
   \<and> snd (generate_monthly_sales missing_product)
       = missing_product @ [(''YearMonth'', [PeriodM 2024 1, PeriodM 2024 2])]
   \<and> snd (generate_ytd_sales missing_product)
       = missing_product @ [(''Year'', [Number 2024, Number 2024])]
   \<and> nrows (snd (generate_monthly_sales missing_product)) = nrows missing_product"
proof -
  have c: "cleaned_table missing_product" by code_simp
  have m: "setitem missing_product ''YearMonth'' (map to_period_M (column missing_product ''Date''))
      = missing_product @ [(''YearMonth'', [PeriodM 2024 1, PeriodM 2024 2])]"
    by (simp add: setitem_def column_def missing_product_def)
  have y: "setitem missing_product ''Year'' (map year_of (column missing_product ''Date''))
      = missing_product @ [(''Year'', [Number 2024, Number 2024])]"
    by (simp add: setitem_def column_def missing_product_def)
  note A = aggregation_effects[OF c]
  have a1: "snd (generate_product_sales missing_product) = missing_product"
    using A by (elim conjE)
  have a2: "snd (generate_salesperson_sales missing_product) = missing_product"
    using A by (elim conjE)
  have a3: "snd (generate_monthly_sales missing_product)
       = setitem missing_product ''YearMonth'' (map to_period_M (column missing_product ''Date''))"
    using A by (elim conjE)
  have a4: "snd (generate_ytd_sales missing_product)
       = setitem missing_product ''Year'' (map year_of (column missing_product ''Date''))"
    using A by (elim conjE)
  have a6: "nrows (snd (generate_monthly_sales missing_product)) = nrows missing_product"
    using A by (elim conjE)
  show ?thesis
    by (intro conjI c a1 a2 a3[unfolded m] a4[unfolded y] a6)
qed

text \<open>
  The claim as stated fails: after \<open>generate_monthly_sales\<close> the table passed in has a
  seventh column YearMonth, after \<open>generate_ytd_sales\<close> a column Year.
\<close>

theorem aggregation_effects_counterexample:
  "cleaned_table scenario_cleaned
   \<and> snd (generate_monthly_sales scenario_cleaned) \<noteq> scenario_cleaned
   \<and> columns scenario_cleaned
       = [''Date'', ''Product'', ''Quantity'', ''Unit Price'', ''Salesperson'', ''Total Sale'']
   \<and> columns (snd (generate_monthly_sales scenario_cleaned))
       = [''Date'', ''Product'', ''Quantity'', ''Unit Price'', ''Salesperson'', ''Total Sale'',
          ''YearMonth'']
   \<and> snd (generate_ytd_sales scenario_cleaned) \<noteq> scenario_cleaned
   \<and> columns (snd (generate_ytd_sales scenario_cleaned))
       = [''Date'', ''Product'', ''Quantity'', ''Unit Price'', ''Salesperson'', ''Total Sale'',
          ''Year'']"
proof -
  have c: "cleaned_table scenario_cleaned" by code_simp
  have c0: "columns scenario_cleaned
       = [''Date'', ''Product'', ''Quantity'', ''Unit Price'', ''Salesperson'', ''Total Sale'']"
    by code_simp
  have cm: "columns (setitem scenario_cleaned ''YearMonth''
              (map to_period_M (column scenario_cleaned ''Date'')))
       = [''Date'', ''Product'', ''Quantity'', ''Unit Price'', ''Salesperson'', ''Total Sale'',
          ''YearMonth'']"
    by (simp add: setitem_def column_def scenario_cleaned_def columns_def)
  have cy: "columns (setitem scenario_cleaned ''Year''
              (map year_of (column scenario_cleaned ''Date'')))
       = [''Date'', ''Product'', ''Quantity'', ''Unit Price'', ''Salesperson'', ''Total Sale'',
          ''Year'']"
    by (simp add: setitem_def column_def scenario_cleaned_def columns_def)
  have m1: "columns (snd (generate_monthly_sales scenario_cleaned))
       = [''Date'', ''Product'', ''Quantity'', ''Unit Price'', ''Salesperson'', ''Total Sale'',
          ''YearMonth'']"
    unfolding monthly_frame[OF c] by (rule cm)
  have y1: "columns (snd (generate_ytd_sales scenario_cleaned))
       = [''Date'', ''Product'', ''Quantity'', ''Unit Price'', ''Salesperson'', ''Total Sale'',
          ''Year'']"
    unfolding ytd_frame[OF c] by (rule cy)
  have m2: "snd (generate_monthly_sales scenario_cleaned) \<noteq> scenario_cleaned"
  proof
    assume "snd (generate_monthly_sales scenario_cleaned) = scenario_cleaned"
    then have "length (columns (snd (generate_monthly_sales scenario_cleaned)))
        = length (columns scenario_cleaned)" by simp
    then show False unfolding m1 c0 by simp
  qed
  have y2: "snd (generate_ytd_sales scenario_cleaned) \<noteq> scenario_cleaned"
  proof
    assume "snd (generate_ytd_sales scenario_cleaned) = scenario_cleaned"
    then have "length (columns (snd (generate_ytd_sales scenario_cleaned)))
        = length (columns scenario_cleaned)" by simp
    then show False unfolding y1 c0 by simp
  qed
  show ?thesis by (intro conjI c m2 c0 m1 y2 y1)
qed

section \<open>The warnings of read_sales_data\<close>

text \<open>
  C2, as amended. The dates are coerced first and the rows without a valid date are
  dropped before Quantity and Unit Price are coerced. For a table with the required
  columns, the warnings printed are those of two tallies that are sums over the rows of
  the file: a row whose Date is unparsable adds 1 to the date tally and nothing to the
  numeric tally, whatever its Quantity and Unit Price.
\<close>

theorem warning_tallies:
  assumes "read_csv E f = Frame df" and "rectangular df"
    and "required_columns \<subseteq> set (columns df)"
  shows "snd (read_sales_data E f w)
           = w\<lparr>console := console w
                 @ warnings (sum_list (map (date_count E) (column df ''Date'')))
                            (sum_list (map (numeric_count E) (raw_rows df)))\<rparr>
       \<and> (\<forall>d q p. unparsable_date E d
              \<longrightarrow> date_count E d = 1 \<and> numeric_count E (d, q, p) = 0)"
proof -
  from read_sales_data_result[OF assms, of w] obtain out where
    "read_sales_data E f w
       = (Inr out, w\<lparr>console := console w
                 @ warnings (sum_list (map (date_count E) (column df ''Date'')))
                            (sum_list (map (numeric_count E) (raw_rows df)))\<rparr>)" by blast
  then show ?thesis by (simp add: date_count_def numeric_count_def)
qed

theorem warning_tallies_witness:
  "read_csv (sample_env sorted_list_of_set (Frame scenario)) INPUT_FILE = Frame scenario
   \<and> rectangular scenario
   \<and> required_columns \<subseteq> set (columns scenario)
   \<and> snd (read_sales_data (sample_env sorted_list_of_set (Frame scenario)) INPUT_FILE world0)
       = \<lparr>console = [DateWarning 1], files = []\<rparr>"
proof -
  let ?E = "sample_env sorted_list_of_set (Frame scenario)"
  have a: "read_csv ?E INPUT_FILE = Frame scenario" by simp
  have b: "rectangular scenario"
    by (simp add: rectangular_def scenario_def nrows_def)
  have c: "required_columns \<subseteq> set (columns scenario)"
    by (simp add: required_columns_def scenario_def columns_def)
  have nd: "sum_list (map (date_count ?E) (column scenario ''Date'')) = 1"
    by (simp add: sample_eval scenario_def)
  have nn: "sum_list (map (numeric_count ?E) (raw_rows scenario)) = 0"
    by (simp add: sample_eval scenario_def)
  have "snd (read_sales_data ?E INPUT_FILE world0)
      = world0\<lparr>console := console world0 @ warnings 1 0\<rparr>"
    using warning_tallies[OF a b c, of world0] unfolding nd nn by (elim conjE)
  then have "snd (read_sales_data ?E INPUT_FILE world0) = \<lparr>console = [DateWarning 1], files = []\<rparr>"
    by (simp add: world0_def warnings_def)
  with a b c show ?thesis by (intro conjI)
qed

text \<open>
  The claim as stated fails: the second row of \<open>both_invalid\<close> has an unparsable Date
  and an unparsable Quantity, and only the date warning is printed, with count 1.
\<close>

theorem warning_tallies_counterexample:
  "raw_rows both_invalid
     = [(Text ''2024-01-05'', Text ''2'', Text ''10.0''), (Text ''bad-date'', Text ''abc'', Text ''3.0'')]
   \<and> unparsable_date (sample_env sorted_list_of_set (Frame both_invalid)) (Text ''bad-date'')
   \<and> unparsable_number (sample_env sorted_list_of_set (Frame both_invalid)) (Text ''abc'')
   \<and> snd (read_sales_data (sample_env sorted_list_of_set (Frame both_invalid)) INPUT_FILE world0)
       = \<lparr>console = [DateWarning 1], files = []\<rparr>"
proof -
  let ?E = "sample_env sorted_list_of_set (Frame both_invalid)"
  have a: "read_csv ?E INPUT_FILE = Frame both_invalid" by simp
  have b: "rectangular both_invalid"
    by (simp add: rectangular_def both_invalid_def nrows_def)
  have c: "required_columns \<subseteq> set (columns both_invalid)"
    by (simp add: required_columns_def both_invalid_def columns_def)
  have rows: "raw_rows both_invalid
     = [(Text ''2024-01-05'', Text ''2'', Text ''10.0''), (Text ''bad-date'', Text ''abc'', Text ''3.0'')]"
    by (simp add: raw_rows_def column_def both_invalid_def)
  have ud: "unparsable_date ?E (Text ''bad-date'')" by (simp add: sample_eval)
  have un: "unparsable_number ?E (Text ''abc'')" by (simp add: sample_eval)
  have nd: "sum_list (map (date_count ?E) (column both_invalid ''Date'')) = 1"
    by (simp add: sample_eval both_invalid_def)
  have nn: "sum_list (map (numeric_count ?E) (raw_rows both_invalid)) = 0"
    by (simp add: sample_eval both_invalid_def)
  from read_sales_data_result[OF a b c, of world0] obtain out where
    "read_sales_data ?E INPUT_FILE world0
       = (Inr out, world0\<lparr>console := console world0 @ warnings 1 0\<rparr>)"
    unfolding nd nn by blast
  then have "snd (read_sales_data ?E INPUT_FILE world0) = \<lparr>console = [DateWarning 1], files = []\<rparr>"
    by (simp add: world0_def warnings_def)
  with rows ud un show ?thesis by (intro conjI)
qed

text \<open>
  C3, at an input where the code departs from it. The second row of
  \<open>both_numbers_bad\<close> has a valid date, an unparsable Quantity and an unparsable Unit
  Price. It is the one row removed (one row is returned), and the warning printed
  reports 2: line 60 adds the missing Quantity cells to the missing Unit Price cells.
\<close>

theorem numeric_tally_counts_cells:
  "raw_rows both_numbers_bad
     = [(Text ''2024-01-05'', Text ''2'', Text ''10.0''), (Text ''2024-01-06'', Text ''abc'', Text ''xyz'')]
   \<and> snd (read_sales_data (sample_env sorted_list_of_set (Frame both_numbers_bad)) INPUT_FILE world0)
       = \<lparr>console = [NumericWarning 2], files = []\<rparr>
   \<and> (\<exists>out. fst (read_sales_data (sample_env sorted_list_of_set (Frame both_numbers_bad))
                    INPUT_FILE world0) = Inr out
            \<and> nrows out = 1)"
proof -
  let ?E = "sample_env sorted_list_of_set (Frame both_numbers_bad)"
  have a: "read_csv ?E INPUT_FILE = Frame both_numbers_bad" by simp
  have b: "rectangular both_numbers_bad"
    by (simp add: rectangular_def both_numbers_bad_def nrows_def)
  have c: "required_columns \<subseteq> set (columns both_numbers_bad)"
    by (simp add: required_columns_def both_numbers_bad_def columns_def)
  have rows: "raw_rows both_numbers_bad
     = [(Text ''2024-01-05'', Text ''2'', Text ''10.0''), (Text ''2024-01-06'', Text ''abc'', Text ''xyz'')]"
    by (simp add: raw_rows_def column_def both_numbers_bad_def)
  have nd: "sum_list (map (date_count ?E) (column both_numbers_bad ''Date'')) = 0"
    by (simp add: sample_eval both_numbers_bad_def)
  have nn: "sum_list (map (numeric_count ?E) (raw_rows both_numbers_bad)) = 2"
    by (simp add: sample_eval both_numbers_bad_def)
  have kept: "length (filter (\<lambda>r. \<not> unparsable_date ?E (fst r) \<and> numeric_count ?E r = 0)
                (raw_rows both_numbers_bad)) = 1"
    by (simp add: sample_eval both_numbers_bad_def)
  from read_sales_data_result[OF a b c, of world0] obtain out where
    run: "read_sales_data ?E INPUT_FILE world0
       = (Inr out, world0\<lparr>console := console world0 @ warnings 0 2\<rparr>)"
    and n: "nrows out = 1"
    unfolding nd nn kept by blast
  have w: "snd (read_sales_data ?E INPUT_FILE world0) = \<lparr>console = [NumericWarning 2], files = []\<rparr>"
    using run by (simp add: world0_def warnings_def)
  have "\<exists>out. fst (read_sales_data ?E INPUT_FILE world0) = Inr out \<and> nrows out = 1"
    using run n by simp
  with rows w show ?thesis by (intro conjI)
qed

theorem numeric_tally_counts_cells_witness:
  "snd (read_sales_data (sample_env sorted_list_of_set (Frame both_numbers_bad)) INPUT_FILE world0)
       = \<lparr>console = [NumericWarning 2], files = []\<rparr>"
  using numeric_tally_counts_cells by (elim conjE)

section \<open>Fatal errors\<close>

text \<open>
  C6. When the file is read as a table that lacks one or more of the five required
  columns, \<open>read_sales_data\<close> exits with a message that lists the missing column names,
  each once and no other, before anything is printed about the rows; the exit status is
  not 0; \<open>main\<close> stops there, having printed only its first line, and writes no file.
\<close>

theorem missing_columns_exit:
  assumes "read_csv E INPUT_FILE = Frame df"
    and "\<not> required_columns \<subseteq> set (columns df)"
    and "iterates (set_iter E)"
  shows "\<exists>ms. set ms = required_columns - set (columns df) \<and> distinct ms \<and> ms \<noteq> []
           \<and> read_sales_data E INPUT_FILE w
               = (Inl (SystemExit (cross_mark @ '' Missing required columns in CSV: ''
                                   @ join '', '' ms)), w)
           \<and> main E w
               = (Inl (SystemExit (cross_mark @ '' Missing required columns in CSV: ''
                                   @ join '', '' ms)), print_line Generating w)
           \<and> exit_status (SystemExit (cross_mark @ '' Missing required columns in CSV: ''
                                   @ join '', '' ms)) \<noteq> 0
           \<and> files (snd (main E w)) = files w"
proof -
  let ?M = "required_columns - set (columns df)"
  let ?ms = "set_iter E ?M"
  have fin: "finite ?M" and ne: "?M \<noteq> {}" using missing_nonempty[OF assms(2)] by simp_all
  have s: "set ?ms = ?M" and d: "distinct ?ms"
    using assms(3) fin unfolding iterates_def by blast+
  have n: "?ms \<noteq> []" using s ne by auto
  have r: "read_sales_data E INPUT_FILE v
      = (Inl (SystemExit (cross_mark @ '' Missing required columns in CSV: '' @ join '', '' ?ms)), v)"
    for v
    using assms(1,2) by (simp add: read_sales_data_def)
  have m: "main E w
      = (Inl (SystemExit (cross_mark @ '' Missing required columns in CSV: '' @ join '', '' ?ms)),
         print_line Generating w)"
    by (simp add: main_def r Let_def)
  have f: "files (snd (main E w)) = files w"
    by (simp add: m print_line_def)
  show ?thesis
    apply (rule exI[of _ ?ms])
    using s d n r[of w] m f apply simp
    done
qed


theorem missing_columns_exit_witness:
  "read_csv (sample_env sorted_list_of_set (Frame missing_one)) INPUT_FILE = Frame missing_one
   \<and> required_columns - set (columns missing_one) = {''Unit Price''}
   \<and> iterates (set_iter (sample_env sorted_list_of_set (Frame missing_one)))
   \<and> main (sample_env sorted_list_of_set (Frame missing_one)) world0
       = (Inl (SystemExit (cross_mark @ '' Missing required columns in CSV: Unit Price'')),
          \<lparr>console = [Generating], files = []\<rparr>)"
proof -
  let ?E = "sample_env sorted_list_of_set (Frame missing_one)"
  have a: "read_csv ?E INPUT_FILE = Frame missing_one" by simp
  have M: "required_columns - set (columns missing_one) = {''Unit Price''}"
    by (simp add: required_columns_def columns_def missing_one_def insert_Diff_if)
  have b: "\<not> required_columns \<subseteq> set (columns missing_one)" using M by auto
  have c: "iterates (set_iter ?E)" by (simp add: iterates_sorted)
  from missing_columns_exit[OF a b c, of world0] obtain ms where
    s: "set ms = required_columns - set (columns missing_one)" and d: "distinct ms"
    and m: "main ?E world0
               = (Inl (SystemExit (cross_mark @ '' Missing required columns in CSV: ''
                                   @ join '', '' ms)), print_line Generating world0)"
    by blast
  have "ms = [''Unit Price'']" using s d unfolding M by (rule singleton_list)
  then have "main ?E world0
       = (Inl (SystemExit (cross_mark @ '' Missing required columns in CSV: Unit Price'')),
          \<lparr>console = [Generating], files = []\<rparr>)"
    using m by (simp add: print_line_def world0_def)
  with a M c show ?thesis by (intro conjI)
qed

text \<open>
  C7. When the table returned by \<open>read_sales_data\<close> is empty, \<open>main\<close> exits with the
  message "No valid data to process." and a status that is not 0. Up to there it has
  printed its first line and the warnings of \<open>read_sales_data\<close>, no table of a summary,
  and it has written no file.
\<close>

theorem empty_table_exit:
  assumes "read_sales_data E INPUT_FILE (print_line Generating w) = (Inr df, w1)"
    and "df_empty df"
  shows "main E w = (Inl (SystemExit (cross_mark @ '' No valid data to process.'')), w1)
       \<and> exit_status (SystemExit (cross_mark @ '' No valid data to process.'')) \<noteq> 0
       \<and> files w1 = files w
       \<and> (\<exists>ws. console w1 = console w @ Generating # ws \<and> list_all is_warning ws)"
proof -
  have m: "main E w = (Inl (SystemExit (cross_mark @ '' No valid data to process.'')), w1)"
    using assms by (simp add: main_def Let_def)
  from read_sales_data_world[of E INPUT_FILE "print_line Generating w"] assms(1)
  obtain ws where w1: "w1 = (print_line Generating w)\<lparr>console := console (print_line Generating w) @ ws\<rparr>"
    and a: "list_all is_warning ws" by auto
  have f: "files w1 = files w" using w1 by (simp add: print_line_def)
  have c: "console w1 = console w @ Generating # ws" using w1 by (simp add: print_line_def)
  show ?thesis using m f c a by auto
qed

theorem empty_table_exit_witness:
  "\<exists>df. read_sales_data (sample_env sorted_list_of_set (Frame no_valid_row)) INPUT_FILE
            (print_line Generating world0)
           = (Inr df, \<lparr>console = [Generating, DateWarning 1], files = []\<rparr>)
         \<and> df_empty df
         \<and> main (sample_env sorted_list_of_set (Frame no_valid_row)) world0
           = (Inl (SystemExit (cross_mark @ '' No valid data to process.'')),
              \<lparr>console = [Generating, DateWarning 1], files = []\<rparr>)"
proof -
  let ?E = "sample_env sorted_list_of_set (Frame no_valid_row)"
  let ?w0 = "print_line Generating world0"
  have a: "read_csv ?E INPUT_FILE = Frame no_valid_row" by simp
  have b: "rectangular no_valid_row"
    by (simp add: rectangular_def no_valid_row_def nrows_def)
  have c: "required_columns \<subseteq> set (columns no_valid_row)"
    by (simp add: required_columns_def no_valid_row_def columns_def)
  have nd: "sum_list (map (date_count ?E) (column no_valid_row ''Date'')) = 1"
    by (simp add: sample_eval no_valid_row_def)
  have nn: "sum_list (map (numeric_count ?E) (raw_rows no_valid_row)) = 0"
    by (simp add: sample_eval no_valid_row_def)
  have kept: "length (filter (\<lambda>r. \<not> unparsable_date ?E (fst r) \<and> numeric_count ?E r = 0)
                (raw_rows no_valid_row)) = 0"
    by (simp add: sample_eval no_valid_row_def)
  from read_sales_data_result[OF a b c, of ?w0] obtain out where
    run: "read_sales_data ?E INPUT_FILE ?w0
       = (Inr out, ?w0\<lparr>console := console ?w0 @ warnings 1 0\<rparr>)"
    and n: "nrows out = 0"
    unfolding nd nn kept by blast
  have w: "?w0\<lparr>console := console ?w0 @ warnings 1 0\<rparr>
      = \<lparr>console = [Generating, DateWarning 1], files = []\<rparr>"
    by (simp add: world0_def warnings_def print_line_def)
  have e: "df_empty out" using n by (simp add: df_empty_def)
  have "main ?E world0 = (Inl (SystemExit (cross_mark @ '' No valid data to process.'')),
              \<lparr>console = [Generating, DateWarning 1], files = []\<rparr>)"
    using empty_table_exit[OF run[unfolded w] e] by (elim conjE)
  then show ?thesis using run[unfolded w] e by blast
qed

section \<open>Two runs on the same file\<close>

text \<open>
  C8, as amended. Two runs on the same file, in the same environment but for the order
  in which each process iterates over a set of strings, have the same outcome, print
  the same text to the console and write the same workbook, provided the file is not
  read as a table lacking two or more of the required columns.
\<close>

theorem output_independent_of_iteration_order:
  assumes "iterates (set_iter E)" and "iterates it"
    and "case read_csv E INPUT_FILE of
           Frame df \<Rightarrow> card (required_columns - set (columns df)) \<le> 1
         | _ \<Rightarrow> True"
  shows "main (E\<lparr>set_iter := it\<rparr>) w = main E w
       \<and> map render (console (snd (main (E\<lparr>set_iter := it\<rparr>) w)))
           = map render (console (snd (main E w)))
       \<and> files (snd (main (E\<lparr>set_iter := it\<rparr>) w)) = files (snd (main E w))"
proof -
  have "main (E\<lparr>set_iter := it\<rparr>) w = main E w"
    unfolding main_def read_sales_data_independent[OF assms] phases_independent_of_iteration_order
    by (rule refl)
  then show ?thesis by simp
qed


theorem output_independent_of_iteration_order_witness:
  "iterates (set_iter (sample_env sorted_list_of_set (Frame scenario)))
   \<and> iterates (rev \<circ> sorted_list_of_set)
   \<and> read_csv (sample_env sorted_list_of_set (Frame scenario)) INPUT_FILE = Frame scenario
   \<and> card (required_columns - set (columns scenario)) \<le> 1
   \<and> main ((sample_env sorted_list_of_set (Frame scenario))\<lparr>set_iter := rev \<circ> sorted_list_of_set\<rparr>)
         world0
       = main (sample_env sorted_list_of_set (Frame scenario)) world0"
proof -
  let ?E = "sample_env sorted_list_of_set (Frame scenario)"
  have a: "iterates (set_iter ?E)" by (simp add: iterates_sorted)
  have b: "iterates (rev \<circ> sorted_list_of_set)" by (rule iterates_rev_sorted)
  have r: "read_csv ?E INPUT_FILE = Frame scenario" by simp
  have e: "required_columns - set (columns scenario) = {}"
    by (simp add: required_columns_def columns_def scenario_def)
  have k: "card (required_columns - set (columns scenario)) \<le> 1"
    unfolding e by simp
  have c: "case read_csv ?E INPUT_FILE of
           Frame df \<Rightarrow> card (required_columns - set (columns df)) \<le> 1
         | _ \<Rightarrow> True"
    unfolding r using k by simp
  have "main (?E\<lparr>set_iter := rev \<circ> sorted_list_of_set\<rparr>) world0 = main ?E world0"
    using output_independent_of_iteration_order[OF a b c, of world0] by (elim conjE)
  with a b r k show ?thesis by (intro conjI)
qed


text \<open>
  The claim as stated fails for a file without the columns Date and Product: the two
  names come in the order of the set iteration, so two runs can exit with different
  messages.
\<close>

theorem output_independent_of_iteration_order_counterexample:
  "iterates sorted_list_of_set
   \<and> iterates (rev \<circ> sorted_list_of_set)
   \<and> main (sample_env sorted_list_of_set (Frame missing_two)) world0
       = (Inl (SystemExit (cross_mark @ '' Missing required columns in CSV: Date, Product'')),
          \<lparr>console = [Generating], files = []\<rparr>)
   \<and> main (sample_env (rev \<circ> sorted_list_of_set) (Frame missing_two)) world0
       = (Inl (SystemExit (cross_mark @ '' Missing required columns in CSV: Product, Date'')),
          \<lparr>console = [Generating], files = []\<rparr>)
   \<and> main (sample_env sorted_list_of_set (Frame missing_two)) world0
       \<noteq> main (sample_env (rev \<circ> sorted_list_of_set) (Frame missing_two)) world0"
proof -
  have ns: "\<not> required_columns \<subseteq> set (columns missing_two)"
    by (simp add: required_columns_def columns_def missing_two_def)
  have m1: "main (sample_env sorted_list_of_set (Frame missing_two)) world0
       = (Inl (SystemExit (cross_mark @ '' Missing required columns in CSV: Date, Product'')),
          \<lparr>console = [Generating], files = []\<rparr>)"
    using ns by (simp add: main_def read_sales_data_def Let_def missing_two_sorted
        print_line_def world0_def)
  have m2: "main (sample_env (rev \<circ> sorted_list_of_set) (Frame missing_two)) world0
       = (Inl (SystemExit (cross_mark @ '' Missing required columns in CSV: Product, Date'')),
          \<lparr>console = [Generating], files = []\<rparr>)"
    using ns by (simp add: main_def read_sales_data_def Let_def missing_two_sorted
        print_line_def world0_def)
  have ne: "main (sample_env sorted_list_of_set (Frame missing_two)) world0
       \<noteq> main (sample_env (rev \<circ> sorted_list_of_set) (Frame missing_two)) world0"
    unfolding m1 m2 by simp
  show ?thesis by (intro conjI iterates_sorted iterates_rev_sorted m1 m2 ne)
qed

end
